theory Spec2Isabelle
  imports Complex_Main "HOL-Library.Word" "HOL-Library.Log_Nat"
begin

section \<open>IEEE 754 arithmetic of the C++ types float and double\<close>

text \<open>
  \<^verbatim>\<open>DepthProvider.h\<close> computes with \<^verbatim>\<open>float\<close> (binary32) and \<^verbatim>\<open>double\<close> (binary64).
  A format is given by its precision (number of significand bits) and its largest exponent.
  A value is finite (a sign, \<open>True\<close> meaning negative, and a rational magnitude, so that the
  two zeros are distinguished), an infinity, or NaN. Every operation computes the exact
  rational result and rounds it to the nearest value of the format, ties to even, with
  gradual underflow and with overflow to infinity.
\<close>

record fmt =
  prec :: nat
  emax :: int

definition binary32 :: fmt where
  "binary32 = \<lparr>prec = 24, emax = 127\<rparr>"

definition binary64 :: fmt where
  "binary64 = \<lparr>prec = 53, emax = 1023\<rparr>"

definition emin :: "fmt \<Rightarrow> int" where
  "emin F = 1 - emax F"

datatype fp = Finite bool rat | Infinity bool | NaN

text \<open>The binary exponent of a positive rational: the \<open>k\<close> with \<open>2^k \<le> m < 2^(k+1)\<close>.\<close>

definition flog2 :: "rat \<Rightarrow> int" where
  "flog2 m = (case quotient_of m of (a, b) \<Rightarrow>
     (let k = bitlen a - bitlen b in if 2 powi k \<le> m then k else k - 1))"

text \<open>Rounding a rational to the nearest integer, ties to the even one.\<close>

definition round_half_even :: "rat \<Rightarrow> int" where
  "round_half_even x = (let n = \<lfloor>x\<rfloor>; r = x - of_int n in
     if r < 1 / 2 then n else if 1 / 2 < r then n + 1 else if even n then n else n + 1)"

text \<open>
  The exponent of the unit in the last place at magnitude \<open>m\<close>: below \<open>2^emin\<close> the
  spacing of the subnormal numbers is used.
\<close>

definition ulp_exp :: "fmt \<Rightarrow> rat \<Rightarrow> int" where
  "ulp_exp F m = max (emin F) (flog2 m) - (int (prec F) - 1)"

definition round_mag :: "fmt \<Rightarrow> rat \<Rightarrow> rat" where
  "round_mag F m = (let u = 2 powi (ulp_exp F m) in of_int (round_half_even (m / u)) * u)"

definition fround :: "fmt \<Rightarrow> bool \<Rightarrow> rat \<Rightarrow> fp" where
  "fround F s m = (let r = round_mag F m in
     if 2 powi (emax F + 1) \<le> r then Infinity s else Finite s r)"

fun fmul :: "fmt \<Rightarrow> fp \<Rightarrow> fp \<Rightarrow> fp" where
  "fmul F NaN y = NaN"
| "fmul F x NaN = NaN"
| "fmul F (Infinity s) (Infinity t) = Infinity (s \<noteq> t)"
| "fmul F (Infinity s) (Finite t n) = (if n = 0 then NaN else Infinity (s \<noteq> t))"
| "fmul F (Finite s m) (Infinity t) = (if m = 0 then NaN else Infinity (s \<noteq> t))"
| "fmul F (Finite s m) (Finite t n) = fround F (s \<noteq> t) (m * n)"

fun fdiv :: "fmt \<Rightarrow> fp \<Rightarrow> fp \<Rightarrow> fp" where
  "fdiv F NaN y = NaN"
| "fdiv F x NaN = NaN"
| "fdiv F (Infinity s) (Infinity t) = NaN"
| "fdiv F (Infinity s) (Finite t n) = Infinity (s \<noteq> t)"
| "fdiv F (Finite s m) (Infinity t) = Finite (s \<noteq> t) 0"
| "fdiv F (Finite s m) (Finite t n) =
     (if n = 0 then (if m = 0 then NaN else Infinity (s \<noteq> t))
      else fround F (s \<noteq> t) (m / n))"

text \<open>The rational value of a finite number, and the comparisons \<^verbatim>\<open><\<close> and \<^verbatim>\<open><=\<close>
  (false whenever an operand is NaN).\<close>

fun fval :: "fp \<Rightarrow> rat" where
  "fval (Finite s m) = (if s then - m else m)"
| "fval (Infinity s) = 0"
| "fval NaN = 0"

fun flt :: "fp \<Rightarrow> fp \<Rightarrow> bool" where
  "flt NaN y = False"
| "flt x NaN = False"
| "flt (Infinity s) (Infinity t) = (s \<and> \<not> t)"
| "flt (Infinity s) (Finite t n) = s"
| "flt (Finite s m) (Infinity t) = (\<not> t)"
| "flt (Finite s m) (Finite t n) = (fval (Finite s m) < fval (Finite t n))"

fun fle :: "fp \<Rightarrow> fp \<Rightarrow> bool" where
  "fle NaN y = False"
| "fle x NaN = False"
| "fle (Infinity s) (Infinity t) = (s \<or> \<not> t)"
| "fle (Infinity s) (Finite t n) = s"
| "fle (Finite s m) (Infinity t) = (\<not> t)"
| "fle (Finite s m) (Finite t n) = (fval (Finite s m) \<le> fval (Finite t n))"

section \<open>DepthProvider.h\<close>

subsection \<open>StereoCalibration\<close>

record StereoCalibration =
  baseline_meters :: fp
  focal_length_px :: fp

text \<open>The constructor \<^verbatim>\<open>StereoCalibration(float baseline_meters, float focal_length_px)\<close>:
  a member initialiser list and an empty body.\<close>

definition new_StereoCalibration :: "fp \<Rightarrow> fp \<Rightarrow> StereoCalibration" where
  "new_StereoCalibration b f = \<lparr>baseline_meters = b, focal_length_px = f\<rparr>"

subsection \<open>DepthFromDisparity\<close>

text \<open>\<^verbatim>\<open>return (calibration.baseline_meters * calibration.focal_length_px) / disparity_px;\<close>
  with all three operands of type \<^verbatim>\<open>float\<close>.\<close>

definition DepthFromDisparity :: "fp \<Rightarrow> StereoCalibration \<Rightarrow> fp" where
  "DepthFromDisparity disparity_px calibration =
     fdiv binary32
       (fmul binary32 (baseline_meters calibration) (focal_length_px calibration))
       disparity_px"

subsection \<open>Integer types and their conversions\<close>

text \<open>Machine integers are words; \<open>sint\<close> reads a signed one, \<open>unat\<close> an unsigned one.\<close>

type_synonym int32 = "32 word"
type_synonym int16 = "16 word"
type_synonym uint16 = "16 word"

text \<open>
  What a call can end in besides a result: the \<^verbatim>\<open>std::runtime_error\<close> thrown by
  \<^verbatim>\<open>DepthFromStereo\<close>, a failed \<^verbatim>\<open>assert\<close>, and behaviour that C++ leaves undefined
  (a floating-point value converted to an integer type that cannot represent it, an access
  outside a matrix).
\<close>

datatype error = RuntimeError string | AssertionFailed | UndefinedBehaviour

text \<open>\<^verbatim>\<open>static_cast<int32_t>\<close> of a \<^verbatim>\<open>double\<close> discards the fractional part; the behaviour
  is undefined when the truncated value is not an \<^verbatim>\<open>int32_t\<close>, and for infinities and NaN.\<close>

definition int32_of_double :: "fp \<Rightarrow> error + int32" where
  "int32_of_double x =
     (case x of
        Finite s m \<Rightarrow>
          (let t = (if s then - \<lfloor>m\<rfloor> else \<lfloor>m\<rfloor>) in
           if - (2 ^ 31) \<le> t \<and> t < 2 ^ 31 then Inr (word_of_int t) else Inl UndefinedBehaviour)
      | Infinity s \<Rightarrow> Inl UndefinedBehaviour
      | NaN \<Rightarrow> Inl UndefinedBehaviour)"

text \<open>The conversions of \<^verbatim>\<open>int32_t\<close> to \<^verbatim>\<open>double\<close> and of \<^verbatim>\<open>uint16_t\<close> to \<^verbatim>\<open>float\<close>
  are exact.\<close>

definition double_of_int32 :: "int32 \<Rightarrow> fp" where
  "double_of_int32 v = Finite (sint v < 0) (of_int \<bar>sint v\<bar>)"

definition float_of_uint16 :: "uint16 \<Rightarrow> fp" where
  "float_of_uint16 w = Finite False (of_nat (unat w))"

definition float_of_float :: "fp \<Rightarrow> fp" where
  "float_of_float x = x"

subsection \<open>Matrices\<close>

text \<open>
  A \<^verbatim>\<open>cv::Mat_<T>\<close> with one channel: its size and its elements in row-major order.
  Reading or writing an element outside the matrix is undefined behaviour.
\<close>

record 'a Mat =
  rows :: nat
  cols :: nat
  elems :: "'a list"

definition mat_at :: "'a Mat \<Rightarrow> nat \<Rightarrow> nat \<Rightarrow> error + 'a" where
  "mat_at m i j =
     (if i < rows m \<and> j < cols m \<and> i * cols m + j < length (elems m)
      then Inr (elems m ! (i * cols m + j)) else Inl UndefinedBehaviour)"

definition mat_put :: "'a Mat \<Rightarrow> nat \<Rightarrow> nat \<Rightarrow> 'a \<Rightarrow> error + 'a Mat" where
  "mat_put m i j v =
     (if i < rows m \<and> j < cols m \<and> i * cols m + j < length (elems m)
      then Inr (m\<lparr>elems := (elems m)[i * cols m + j := v]\<rparr>) else Inl UndefinedBehaviour)"

text \<open>\<^verbatim>\<open>cv::Mat_<T>(size, value)\<close>: a new matrix with every element set to \<open>value\<close>.\<close>

definition new_Mat :: "nat \<Rightarrow> nat \<Rightarrow> 'a \<Rightarrow> 'a Mat" where
  "new_Mat r c v = \<lparr>rows = r, cols = c, elems = replicate (r * c) v\<rparr>"

definition map_Mat :: "('a \<Rightarrow> 'b) \<Rightarrow> 'a Mat \<Rightarrow> 'b Mat" where
  "map_Mat g m = \<lparr>rows = rows m, cols = cols m, elems = map g (elems m)\<rparr>"

text \<open>
  A \<^verbatim>\<open>cv::Mat\<close> carries its element type at run time. The constructor is that type:
  \<open>Mat32F\<close> is \<^verbatim>\<open>CV_32FC1\<close>, \<open>Mat16S\<close> is \<^verbatim>\<open>CV_16SC1\<close>, and \<open>MatOther t\<close> is any other
  type, \<open>t\<close> being its OpenCV type code; the elements of such a matrix are never read.
\<close>

datatype cvMat = Mat32F "fp Mat" | Mat16S "int16 Mat" | MatOther nat "unit Mat"

definition CV_16SC1 :: nat where
  "CV_16SC1 = 3"

definition CV_32FC1 :: nat where
  "CV_32FC1 = 5"

fun mat_type :: "cvMat \<Rightarrow> nat" where
  "mat_type (Mat32F m) = CV_32FC1"
| "mat_type (Mat16S m) = CV_16SC1"
| "mat_type (MatOther t m) = t"

fun mat_rows :: "cvMat \<Rightarrow> nat" where
  "mat_rows (Mat32F m) = rows m"
| "mat_rows (Mat16S m) = rows m"
| "mat_rows (MatOther t m) = rows m"

fun mat_cols :: "cvMat \<Rightarrow> nat" where
  "mat_cols (Mat32F m) = cols m"
| "mat_cols (Mat16S m) = cols m"
| "mat_cols (MatOther t m) = cols m"

text \<open>The default-constructed \<^verbatim>\<open>cv::Mat\<close>: no rows, no columns, type code 0.\<close>

definition empty_Mat :: cvMat where
  "empty_Mat = MatOther 0 \<lparr>rows = 0, cols = 0, elems = []\<rparr>"

subsection \<open>DepthFromDisparityMap\<close>

definition kMetersToMillimeters :: fp where
  "kMetersToMillimeters = Finite False 1000"

definition kMaxDepthMeters :: int32 where
  "kMaxDepthMeters = 15"

text \<open>\<^verbatim>\<open>std::numeric_limits<int16_t>::max()\<close>, assigned to the \<^verbatim>\<open>int32_t depth_mm\<close>.\<close>

definition int16_max :: int32 where
  "int16_max = 32767"

text \<open>
  The body of the inner loop for one disparity value, already converted to \<^verbatim>\<open>float\<close> for
  the call of \<^verbatim>\<open>DepthFromDisparity\<close>. The product with \<^verbatim>\<open>kMetersToMillimeters\<close>, the
  initialiser \<^verbatim>\<open>0.5 * kMetersToMillimeters\<close> of \<^verbatim>\<open>min_depth\<close> and the bound
  \<^verbatim>\<open>kMaxDepthMeters * kMetersToMillimeters\<close> are computed in \<^verbatim>\<open>double\<close>; the comparison
  with the bound converts \<^verbatim>\<open>depth_mm\<close> to \<^verbatim>\<open>double\<close>, the one with \<^verbatim>\<open>min_depth\<close> is between
  two \<^verbatim>\<open>int32_t\<close>. The result is \<^verbatim>\<open>depth_mm_short\<close>.
\<close>

definition depth_of_pixel :: "StereoCalibration \<Rightarrow> fp \<Rightarrow> error + int16" where
  "depth_of_pixel calibration disp =
     (case int32_of_double
             (fmul binary64 kMetersToMillimeters (DepthFromDisparity disp calibration)) of
        Inl e \<Rightarrow> Inl e
      | Inr depth_mm \<Rightarrow>
          (case int32_of_double (fmul binary64 (Finite False (1 / 2)) kMetersToMillimeters) of
             Inl e \<Rightarrow> Inl e
           | Inr min_depth \<Rightarrow>
               Inr (scast
                 (if flt (fmul binary64 (double_of_int32 kMaxDepthMeters) kMetersToMillimeters)
                        (double_of_int32 depth_mm)
                     \<or> sint depth_mm < sint min_depth
                  then int16_max else depth_mm))))"

text \<open>
  The two loops. A call ends in the output matrix as it then is, and in the error that
  stopped it, if one did. \<open>to_float\<close> is the conversion of the element type \<^verbatim>\<open>T\<close> to the
  \<^verbatim>\<open>float\<close> parameter of \<^verbatim>\<open>DepthFromDisparity\<close>.
\<close>

function cols_loop ::
  "('t \<Rightarrow> fp) \<Rightarrow> 't Mat \<Rightarrow> StereoCalibration \<Rightarrow> nat \<Rightarrow> nat \<Rightarrow> int16 Mat
    \<Rightarrow> int16 Mat \<times> error option" where
  "cols_loop to_float disparity calibration i j out_depth =
     (if j < cols disparity then
        (case mat_at disparity i j of
           Inl e \<Rightarrow> (out_depth, Some e)
         | Inr disp \<Rightarrow>
             (case depth_of_pixel calibration (to_float disp) of
                Inl e \<Rightarrow> (out_depth, Some e)
              | Inr depth_mm_short \<Rightarrow>
                  (case mat_put out_depth i j depth_mm_short of
                     Inl e \<Rightarrow> (out_depth, Some e)
                   | Inr out \<Rightarrow> cols_loop to_float disparity calibration i (j + 1) out)))
      else (out_depth, None))"
  by pat_completeness auto
termination
  by (relation "measure (\<lambda>(to_float, disparity, calibration, i, j, out_depth). cols disparity - j)")
    auto

function rows_loop ::
  "('t \<Rightarrow> fp) \<Rightarrow> 't Mat \<Rightarrow> StereoCalibration \<Rightarrow> nat \<Rightarrow> int16 Mat
    \<Rightarrow> int16 Mat \<times> error option" where
  "rows_loop to_float disparity calibration i out_depth =
     (if i < rows disparity then
        (case cols_loop to_float disparity calibration i 0 out_depth of
           (out, Some e) \<Rightarrow> (out, Some e)
         | (out, None) \<Rightarrow> rows_loop to_float disparity calibration (i + 1) out)
      else (out_depth, None))"
  by pat_completeness auto
termination
  by (relation "measure (\<lambda>(to_float, disparity, calibration, i, out_depth). rows disparity - i)")
    auto

declare cols_loop.simps [simp del] rows_loop.simps [simp del]

definition DepthFromDisparityMap ::
  "('t \<Rightarrow> fp) \<Rightarrow> 't Mat \<Rightarrow> StereoCalibration \<Rightarrow> int16 Mat \<Rightarrow> int16 Mat \<times> error option" where
  "DepthFromDisparityMap to_float disparity calibration out_depth =
     (if rows disparity = rows out_depth \<and> cols disparity = cols out_depth
      then rows_loop to_float disparity calibration 0 out_depth
      else (out_depth, Some AssertionFailed))"

subsection \<open>DepthFromStereo\<close>

text \<open>
  A provider is its flag \<^verbatim>\<open>input_is_depth_\<close> and its implementation of the pure virtual
  \<^verbatim>\<open>DisparityMapFromStereo\<close>, which receives the two images and the matrix it writes to
  and leaves that matrix in a new state. The images are of an arbitrary type.
\<close>

record 'img DepthProvider =
  input_is_depth :: bool
  DisparityMapFromStereo :: "'img \<Rightarrow> 'img \<Rightarrow> cvMat \<Rightarrow> cvMat"

text \<open>
  Three things are used and not defined in \<^verbatim>\<open>DepthProvider.h\<close>: \<^verbatim>\<open>utils::Type2Str\<close> and
  \<^verbatim>\<open>utils::Format\<close>, which are declared only (\<^verbatim>\<open>Format\<close> is applied to a format string and
  one string argument), and the conversion by which OpenCV passes a \<^verbatim>\<open>cv::Mat\<close> of type
  \<^verbatim>\<open>CV_16SC1\<close> as the \<^verbatim>\<open>const cv::Mat_<uint16_t> &\<close> parameter of
  \<^verbatim>\<open>DepthFromDisparityMap<uint16_t>\<close>, element by element. All three are parameters.
\<close>

record library =
  Type2Str :: "nat \<Rightarrow> string"
  Format :: "string \<Rightarrow> string \<Rightarrow> string"
  Mat_uint16 :: "int16 \<Rightarrow> uint16"

definition unknown_type_format :: string where
  "unknown_type_format =
     ''Unknown data type for disparity matrix [%s]. Supported are CV_32FC1 and CV_16UC1.''"

text \<open>
  \<^verbatim>\<open>DepthFromStereo\<close> returns nothing and writes to its parameter \<^verbatim>\<open>out_depth\<close>: the model
  takes the caller's matrix and gives its final state, with the error the call ended in,
  if any. In \<^verbatim>\<open>cv::Mat1s(out_disparity.size(), CV_16SC1)\<close> the second argument is the
  value of every element of the new matrix.
\<close>

definition DepthFromStereo ::
  "library \<Rightarrow> 'img DepthProvider \<Rightarrow> 'img \<Rightarrow> 'img \<Rightarrow> StereoCalibration \<Rightarrow> cvMat
    \<Rightarrow> cvMat \<times> error option" where
  "DepthFromStereo lib this left right calibration out_depth =
     (if input_is_depth this then (DisparityMapFromStereo this left right out_depth, None)
      else
        let out_disparity = DisparityMapFromStereo this left right empty_Mat;
            out_depth1 = new_Mat (mat_rows out_disparity) (mat_cols out_disparity)
                           (of_nat CV_16SC1)
        in (case out_disparity of
              Mat32F disparity \<Rightarrow>
                (case DepthFromDisparityMap float_of_float disparity calibration out_depth1 of
                   (out, ex) \<Rightarrow> (Mat16S out, ex))
            | Mat16S disparity \<Rightarrow>
                (case DepthFromDisparityMap float_of_uint16
                        (map_Mat (Mat_uint16 lib) disparity) calibration out_depth1 of
                   (out, ex) \<Rightarrow> (Mat16S out, ex))
            | MatOther t m \<Rightarrow>
                (Mat16S out_depth1,
                 Some (RuntimeError
                   (Format lib unknown_type_format (Type2Str lib (mat_type out_disparity)))))))"

subsection \<open>The conversion to int32_t as the processor performs it\<close>

text \<open>
  Where C++ leaves \<^verbatim>\<open>static_cast<int32_t>\<close> of a \<^verbatim>\<open>double\<close> undefined, the compiled code
  still converts with the one instruction of the processor, and that instruction delivers
  a value: \<^verbatim>\<open>cvttsd2si\<close> of x86-64 the \<^emph>\<open>integer indefinite\<close> \<^verbatim>\<open>INT32_MIN\<close>, \<^verbatim>\<open>fcvtzs\<close> of
  AArch64 the nearest \<^verbatim>\<open>int32_t\<close>, and 0 for NaN. The value delivered is the parameter
  \<open>indefinite\<close>; where the language defines the conversion, the result is the one of
  \<open>int32_of_double\<close>. With this conversion the loop body always has a result, and the
  loops stop early only on an access outside a matrix.
\<close>

definition int32_of_double_on :: "(fp \<Rightarrow> int32) \<Rightarrow> fp \<Rightarrow> int32" where
  "int32_of_double_on indefinite x =
     (case int32_of_double x of Inl e \<Rightarrow> indefinite x | Inr v \<Rightarrow> v)"

text \<open>The value that \<^verbatim>\<open>cvttsd2si\<close> delivers.\<close>

definition cvttsd2si_indefinite :: "fp \<Rightarrow> int32" where
  "cvttsd2si_indefinite x = - 2147483648"

text \<open>The body of the inner loop, the two loops and \<^verbatim>\<open>DepthFromDisparityMap\<close> again, with
  this conversion in the two places where a \<^verbatim>\<open>double\<close> becomes an \<^verbatim>\<open>int32_t\<close>.\<close>

definition depth_of_pixel_on :: "(fp \<Rightarrow> int32) \<Rightarrow> StereoCalibration \<Rightarrow> fp \<Rightarrow> int16" where
  "depth_of_pixel_on indefinite calibration disp =
     (let depth_mm = int32_of_double_on indefinite
            (fmul binary64 kMetersToMillimeters (DepthFromDisparity disp calibration));
          min_depth = int32_of_double_on indefinite
            (fmul binary64 (Finite False (1 / 2)) kMetersToMillimeters)
      in scast
           (if flt (fmul binary64 (double_of_int32 kMaxDepthMeters) kMetersToMillimeters)
                  (double_of_int32 depth_mm)
               \<or> sint depth_mm < sint min_depth
            then int16_max else depth_mm))"

function cols_loop_on ::
  "(fp \<Rightarrow> int32) \<Rightarrow> ('t \<Rightarrow> fp) \<Rightarrow> 't Mat \<Rightarrow> StereoCalibration \<Rightarrow> nat \<Rightarrow> nat \<Rightarrow> int16 Mat
    \<Rightarrow> int16 Mat \<times> error option" where
  "cols_loop_on indefinite to_float disparity calibration i j out_depth =
     (if j < cols disparity then
        (case mat_at disparity i j of
           Inl e \<Rightarrow> (out_depth, Some e)
         | Inr disp \<Rightarrow>
             (case mat_put out_depth i j
                     (depth_of_pixel_on indefinite calibration (to_float disp)) of
                Inl e \<Rightarrow> (out_depth, Some e)
              | Inr out \<Rightarrow>
                  cols_loop_on indefinite to_float disparity calibration i (j + 1) out))
      else (out_depth, None))"
  by pat_completeness auto
termination
  by (relation "measure (\<lambda>(indefinite, to_float, disparity, calibration, i, j, out_depth).
        cols disparity - j)") auto

function rows_loop_on ::
  "(fp \<Rightarrow> int32) \<Rightarrow> ('t \<Rightarrow> fp) \<Rightarrow> 't Mat \<Rightarrow> StereoCalibration \<Rightarrow> nat \<Rightarrow> int16 Mat
    \<Rightarrow> int16 Mat \<times> error option" where
  "rows_loop_on indefinite to_float disparity calibration i out_depth =
     (if i < rows disparity then
        (case cols_loop_on indefinite to_float disparity calibration i 0 out_depth of
           (out, Some e) \<Rightarrow> (out, Some e)
         | (out, None) \<Rightarrow> rows_loop_on indefinite to_float disparity calibration (i + 1) out)
      else (out_depth, None))"
  by pat_completeness auto
termination
  by (relation "measure (\<lambda>(indefinite, to_float, disparity, calibration, i, out_depth).
        rows disparity - i)") auto

declare cols_loop_on.simps [simp del] rows_loop_on.simps [simp del]

definition DepthFromDisparityMap_on ::
  "(fp \<Rightarrow> int32) \<Rightarrow> ('t \<Rightarrow> fp) \<Rightarrow> 't Mat \<Rightarrow> StereoCalibration \<Rightarrow> int16 Mat
    \<Rightarrow> int16 Mat \<times> error option" where
  "DepthFromDisparityMap_on indefinite to_float disparity calibration out_depth =
     (if rows disparity = rows out_depth \<and> cols disparity = cols out_depth
      then rows_loop_on indefinite to_float disparity calibration 0 out_depth
      else (out_depth, Some AssertionFailed))"

section \<open>Properties of the arithmetic\<close>

lemma two_powi_less_iff: "(2::rat) powi a < 2 powi b \<longleftrightarrow> a < b"
proof
  assume l: "(2::rat) powi a < 2 powi b"
  show "a < b"
  proof (rule ccontr)
    assume "\<not> a < b"
    then have "b \<le> a" by simp
    then have "(2::rat) powi b \<le> 2 powi a" by (intro power_int_increasing) auto
    with l show False by simp
  qed
next
  assume "a < b"
  then show "(2::rat) powi a < 2 powi b" by (intro power_int_strict_increasing) auto
qed

lemma two_powi_le_iff: "(2::rat) powi a \<le> 2 powi b \<longleftrightarrow> a \<le> b"
  using two_powi_less_iff [of b a] by (auto simp: not_less [symmetric])

lemma two_powi_pos: "0 < (2::rat) powi a"
  by (rule zero_less_power_int) simp

lemma bitlen_powi:
  assumes "0 < a"
  shows "(2::rat) powi (bitlen a - 1) \<le> of_int a" "of_int a < (2::rat) powi (bitlen a)"
proof -
  have b: "2 ^ nat (bitlen a - 1) \<le> a" "a < 2 ^ nat (bitlen a)"
    using bitlen_bounds [OF assms] by auto
  have ge: "1 \<le> bitlen a"
    using assms bitlen_eq_zero_iff [of a] bitlen_nonneg [of a] by linarith
  have "(2::rat) powi (bitlen a - 1) = of_int (2 ^ nat (bitlen a - 1))"
    using ge by (simp add: power_int_def)
  also have "\<dots> \<le> of_int a"
    using b(1) by (simp only: of_int_le_iff)
  finally show "(2::rat) powi (bitlen a - 1) \<le> of_int a" .
  have "(2::rat) powi (bitlen a) = of_int (2 ^ nat (bitlen a))"
    using ge by (simp add: power_int_def)
  moreover have "(of_int a :: rat) < of_int (2 ^ nat (bitlen a))"
    using b(2) by (simp only: of_int_less_iff)
  ultimately show "of_int a < (2::rat) powi (bitlen a)" by simp
qed

lemma flog2_bounds:
  assumes "0 < m"
  shows "2 powi (flog2 m) \<le> m \<and> m < 2 powi (flog2 m + 1)"
proof -
  obtain a b where q: "quotient_of m = (a, b)" by (cases "quotient_of m")
  have bpos: "0 < b" using q quotient_of_denom_pos by blast
  have m: "m = of_int a / of_int b" using q by (rule quotient_of_div)
  have apos: "0 < a" using assms bpos m by (simp add: zero_less_divide_iff)
  let ?k = "bitlen a - bitlen b"
  have "m < 2 powi (bitlen a) / 2 powi (bitlen b - 1)"
    unfolding m
    using bitlen_powi [OF apos] bitlen_powi [OF bpos] apos bpos two_powi_pos [of "bitlen b - 1"]
    by (intro frac_less) auto
  also have "\<dots> = 2 powi (?k + 1)"
    by (simp add: power_int_diff power_int_add)
  finally have up: "m < 2 powi (?k + 1)" .
  have "2 powi (bitlen a - 1) / 2 powi (bitlen b) < m"
    unfolding m
    using bitlen_powi [OF apos] bitlen_powi [OF bpos] apos bpos two_powi_pos [of "bitlen a - 1"]
    by (intro frac_less2) auto
  moreover have "2 powi (bitlen a - 1) / 2 powi (bitlen b) = (2::rat) powi (?k - 1)"
    by (simp add: power_int_diff)
  ultimately have lo: "2 powi (?k - 1) \<le> m" by simp
  show ?thesis
    using up lo q by (auto simp: flog2_def Let_def)
qed

lemma flog2_unique:
  assumes "2 powi k \<le> m" "m < 2 powi (k + 1)"
  shows "flog2 m = k"
proof -
  have pos: "0 < m"
    using assms(1) two_powi_pos [of k] by linarith
  note b = flog2_bounds [OF pos]
  have "(2::rat) powi k < 2 powi (flog2 m + 1)" using assms(1) b by linarith
  then have 1: "k < flog2 m + 1" by (simp only: two_powi_less_iff)
  have "(2::rat) powi (flog2 m) < 2 powi (k + 1)" using assms(2) b by linarith
  then have 2: "flog2 m < k + 1" by (simp only: two_powi_less_iff)
  from 1 2 show ?thesis by simp
qed

text \<open>Evaluation of the rounding when the binary exponent of the argument is known.\<close>

lemma round_mag_eval:
  assumes "2 powi k \<le> m" "m < 2 powi (k + 1)"
  shows "round_mag F m =
    (let u = 2 powi (max (emin F) k - (int (prec F) - 1)) in of_int (round_half_even (m / u)) * u)"
  by (simp add: round_mag_def ulp_exp_def flog2_unique [OF assms])

lemma round_half_even_frac:
  assumes "0 < b"
  shows "round_half_even (of_int a / of_int b) =
    (let n = a div b; r = 2 * (a mod b) in
       if r < b then n else if b < r then n + 1 else if even n then n else n + 1)"
proof -
  have fl: "\<lfloor>(of_int a / of_int b :: rat)\<rfloor> = a div b"
    by (rule floor_divide_of_int_eq)
  have nz: "(of_int b :: rat) \<noteq> 0" using assms by simp
  have "(of_int a :: rat) = of_int (a div b) * of_int b + of_int (a mod b)"
    by (simp only: of_int_mult [symmetric] of_int_add [symmetric] div_mult_mod_eq)
  then have "(of_int a / of_int b :: rat)
      = of_int (a div b) * of_int b / of_int b + of_int (a mod b) / of_int b"
    by (simp only: add_divide_distrib)
  then have "(of_int a / of_int b :: rat) = of_int (a div b) + of_int (a mod b) / of_int b"
    using nz by simp
  then have r: "(of_int a / of_int b :: rat) - of_int (a div b) = of_int (a mod b) / of_int b"
    by simp
  have lt: "(of_int (a mod b) / of_int b :: rat) < 1 / 2 \<longleftrightarrow> 2 * (a mod b) < b"
  proof -
    have "(of_int (a mod b) / of_int b :: rat) < 1 / 2 \<longleftrightarrow> (of_int (2 * (a mod b)) :: rat) < of_int b"
      using assms by (simp add: field_simps)
    then show ?thesis by (simp only: of_int_less_iff)
  qed
  have gt: "1 / 2 < (of_int (a mod b) / of_int b :: rat) \<longleftrightarrow> b < 2 * (a mod b)"
  proof -
    have "1 / 2 < (of_int (a mod b) / of_int b :: rat) \<longleftrightarrow> (of_int b :: rat) < of_int (2 * (a mod b))"
      using assms by (simp add: field_simps)
    then show ?thesis by (simp only: of_int_less_iff)
  qed
  show ?thesis
    unfolding round_half_even_def fl r Let_def lt gt ..
qed

lemma round_half_even_numeral_div:
  "round_half_even (numeral a / numeral b) =
    (let n = numeral a div numeral b; r = 2 * (numeral a mod numeral b :: int) in
       if r < numeral b then n else if numeral b < r then n + 1 else if even n then n else n + 1)"
  using round_half_even_frac [of "numeral b" "numeral a"] by simp

lemma round_half_even_one_div:
  "round_half_even (1 / numeral b) =
    (let n = 1 div numeral b; r = 2 * (1 mod numeral b :: int) in
       if r < numeral b then n else if numeral b < r then n + 1 else if even n then n else n + 1)"
  using round_half_even_frac [of "numeral b" 1] by simp

lemma round_half_even_of_int: "round_half_even (of_int n) = n"
  by (simp add: round_half_even_def)

lemma round_half_even_numeral: "round_half_even (numeral a) = numeral a"
  using round_half_even_of_int [of "numeral a"] by simp

lemma round_half_even_zero: "round_half_even 0 = 0"
  using round_half_even_of_int [of 0] by simp

lemma round_half_even_one: "round_half_even 1 = 1"
  using round_half_even_of_int [of 1] by simp

lemmas round_half_even_eval =
  round_half_even_numeral_div round_half_even_one_div round_half_even_numeral
  round_half_even_zero round_half_even_one

lemma round_half_even_bounds: "\<lfloor>x\<rfloor> \<le> round_half_even x \<and> round_half_even x \<le> \<lfloor>x\<rfloor> + 1"
  by (simp add: round_half_even_def Let_def)

lemma round_half_even_mono:
  assumes "x \<le> y"
  shows "round_half_even x \<le> round_half_even y"
proof (cases "\<lfloor>x\<rfloor> = \<lfloor>y\<rfloor>")
  case True
  have "x - of_int \<lfloor>x\<rfloor> \<le> y - of_int \<lfloor>x\<rfloor>" using assms by simp
  then show ?thesis
    unfolding round_half_even_def Let_def True [symmetric] by auto
next
  case False
  have "\<lfloor>x\<rfloor> \<le> \<lfloor>y\<rfloor>" using assms by (rule floor_mono)
  with False have "\<lfloor>x\<rfloor> + 1 \<le> \<lfloor>y\<rfloor>" by simp
  then show ?thesis
    using round_half_even_bounds [of x] round_half_even_bounds [of y] by linarith
qed

lemma round_half_even_le_int: "x \<le> of_int n \<Longrightarrow> round_half_even x \<le> n"
  using round_half_even_mono [of x "of_int n"] by (simp add: round_half_even_of_int)

lemma round_half_even_ge_int: "of_int n \<le> x \<Longrightarrow> n \<le> round_half_even x"
  using round_half_even_mono [of "of_int n" x] by (simp add: round_half_even_of_int)

lemma round_mag_zero: "round_mag F 0 = 0"
  by (simp add: round_mag_def round_half_even_zero)

lemma round_mag_nonneg:
  assumes "0 \<le> m"
  shows "0 \<le> round_mag F m"
proof -
  have "0 \<le> m / 2 powi (ulp_exp F m)"
    using assms two_powi_pos [of "ulp_exp F m"] by simp
  then have "0 \<le> round_half_even (m / 2 powi (ulp_exp F m))"
    using round_half_even_ge_int [of 0] by simp
  then show ?thesis
    using two_powi_pos [of "ulp_exp F m"] by (simp add: round_mag_def Let_def)
qed

lemma flog2_mono:
  assumes "0 < m" "m \<le> n"
  shows "flog2 m \<le> flog2 n"
proof -
  have n: "0 < n" using assms by simp
  have "(2::rat) powi (flog2 m) < 2 powi (flog2 n + 1)"
    using flog2_bounds [OF assms(1)] flog2_bounds [OF n] assms(2) by linarith
  then show ?thesis by (simp add: two_powi_less_iff)
qed

lemma two_powi_nat: "(2::rat) powi (int k) = of_int (2 ^ k)"
  by (simp add: power_int_def)

lemma two_powi_split: "of_int (2 ^ p) * 2 powi (e - int p) = (2::rat) powi e"
proof -
  have "(2::rat) powi e = 2 powi (int p + (e - int p))" by simp
  also have "\<dots> = 2 powi (int p) * 2 powi (e - int p)"
    by (rule power_int_add) simp
  finally show ?thesis by (simp add: two_powi_nat)
qed

lemma round_mag_mono:
  assumes prec: "0 < prec F" and pos: "0 \<le> m" and le: "m \<le> n"
  shows "round_mag F m \<le> round_mag F n"
proof (cases "m = 0")
  case True
  then show ?thesis using round_mag_nonneg [of n F] pos le by (simp add: round_mag_zero)
next
  case False
  then have m: "0 < m" using pos by simp
  then have n: "0 < n" using le by simp
  define p where "p = prec F - 1"
  have pp: "int (prec F) - 1 = int p" using prec by (simp add: p_def)
  define e1 where "e1 = max (emin F) (flog2 m)"
  define e2 where "e2 = max (emin F) (flog2 n)"
  have e12: "e1 \<le> e2" using flog2_mono [OF m le] by (simp add: e1_def e2_def)
  have rm: "round_mag F m = of_int (round_half_even (m / 2 powi (e1 - int p))) * 2 powi (e1 - int p)"
    by (simp add: round_mag_def ulp_exp_def e1_def pp Let_def)
  have rn: "round_mag F n = of_int (round_half_even (n / 2 powi (e2 - int p))) * 2 powi (e2 - int p)"
    by (simp add: round_mag_def ulp_exp_def e2_def pp Let_def)
  show ?thesis
  proof (cases "e1 = e2")
    case True
    have "m / 2 powi (e2 - int p) \<le> n / 2 powi (e2 - int p)"
      using le two_powi_pos [of "e2 - int p"] by (simp add: divide_right_mono)
    then have "round_half_even (m / 2 powi (e2 - int p)) \<le> round_half_even (n / 2 powi (e2 - int p))"
      by (rule round_half_even_mono)
    then show ?thesis
      unfolding rm rn True using two_powi_pos [of "e2 - int p"] by (simp add: mult_right_mono)
  next
    case False
    with e12 have lt: "e1 + 1 \<le> e2" by simp
    \<comment> \<open>the smaller argument rounds to at most \<open>2^(e1+1)\<close>\<close>
    have "m < 2 powi (flog2 m + 1)" using flog2_bounds [OF m] by simp
    also have "\<dots> \<le> 2 powi (e1 + 1)" by (simp add: two_powi_le_iff e1_def)
    finally have "m / 2 powi (e1 - int p) \<le> 2 powi (e1 + 1) / 2 powi (e1 - int p)"
      using two_powi_pos [of "e1 - int p"] by (simp add: divide_right_mono)
    also have "2 powi (e1 + 1) / 2 powi (e1 - int p) = (2::rat) powi (int (p + 1))"
      by (simp add: power_int_diff [symmetric])
    also have "\<dots> = of_int (2 ^ (p + 1))" by (rule two_powi_nat)
    finally have "round_half_even (m / 2 powi (e1 - int p)) \<le> 2 ^ (p + 1)"
      by (rule round_half_even_le_int)
    then have "(of_int (round_half_even (m / 2 powi (e1 - int p))) :: rat) \<le> of_int (2 ^ (p + 1))"
      by (simp only: of_int_le_iff)
    then have "round_mag F m \<le> of_int (2 ^ (p + 1)) * 2 powi (e1 - int p)"
      unfolding rm using two_powi_pos [of "e1 - int p"] by (simp only: mult_right_mono less_imp_le)
    also have "of_int (2 ^ (p + 1)) * 2 powi (e1 - int p) = (2::rat) powi (e1 + 1)"
      using two_powi_split [of "p + 1" "e1 + 1"] by simp
    finally have up: "round_mag F m \<le> 2 powi (e1 + 1)" .
    \<comment> \<open>the larger argument rounds to at least \<open>2^e2\<close>\<close>
    have "emin F < e2" using lt by (simp add: e1_def)
    then have e2: "e2 = flog2 n" by (simp add: e2_def max_def split: if_splits)
    have "(2::rat) powi e2 \<le> n" using flog2_bounds [OF n] by (simp add: e2)
    then have "2 powi e2 / 2 powi (e2 - int p) \<le> n / 2 powi (e2 - int p)"
      using two_powi_pos [of "e2 - int p"] by (simp add: divide_right_mono)
    moreover have "2 powi e2 / 2 powi (e2 - int p) = (2::rat) powi (int p)"
      by (simp add: power_int_diff [symmetric])
    ultimately have "of_int (2 ^ p) \<le> n / 2 powi (e2 - int p)"
      by (simp only: two_powi_nat)
    then have "2 ^ p \<le> round_half_even (n / 2 powi (e2 - int p))"
      by (rule round_half_even_ge_int)
    then have "(of_int (2 ^ p) :: rat) \<le> of_int (round_half_even (n / 2 powi (e2 - int p)))"
      by (simp only: of_int_le_iff)
    then have "of_int (2 ^ p) * 2 powi (e2 - int p) \<le> round_mag F n"
      unfolding rn using two_powi_pos [of "e2 - int p"] by (simp only: mult_right_mono less_imp_le)
    moreover have "of_int (2 ^ p) * 2 powi (e2 - int p) = (2::rat) powi e2"
      by (rule two_powi_split)
    ultimately have lo: "2 powi e2 \<le> round_mag F n" by simp
    have "(2::rat) powi (e1 + 1) \<le> 2 powi e2" using lt by (simp add: two_powi_le_iff)
    with up lo show ?thesis by linarith
  qed
qed

section \<open>The conversion of one pixel\<close>

lemma floor_numeral_div: "\<lfloor>(numeral a / numeral b :: rat)\<rfloor> = numeral a div numeral b"
  using floor_divide_of_int_eq [of "numeral a" "numeral b", where ?'a = rat] by simp

lemma floor_one_div: "\<lfloor>(1 / numeral b :: rat)\<rfloor> = 1 div numeral b"
  using floor_divide_of_int_eq [of 1 "numeral b", where ?'a = rat] by simp

lemmas floor_eval = floor_numeral_div floor_one_div

lemma min_depth_value:
  "int32_of_double (fmul binary64 (Finite False (1 / 2)) kMetersToMillimeters) = Inr 500"
  by (simp add: int32_of_double_def kMetersToMillimeters_def fround_def
      round_mag_eval [where k = 8] round_half_even_eval binary64_def emin_def)

lemma max_depth_value:
  "fmul binary64 (double_of_int32 kMaxDepthMeters) kMetersToMillimeters = Finite False 15000"
  by (simp add: double_of_int32_def kMaxDepthMeters_def kMetersToMillimeters_def fround_def
      round_mag_eval [where k = 13] round_half_even_eval binary64_def emin_def)

lemma flt_numeral_of_int:
  fixes k :: int
  shows "flt (Finite False (numeral n)) (Finite (k < 0) (of_int \<bar>k\<bar>)) \<longleftrightarrow> numeral n < k"
proof (cases "k < 0")
  case True
  have "- \<bar>rat_of_int k\<bar> \<le> 0" by simp
  also have "(0::rat) \<le> numeral n" by simp
  finally have "\<not> (numeral n :: rat) < - of_int \<bar>k\<bar>" by (simp add: not_less)
  with True show ?thesis by simp
next
  case False
  then show ?thesis by simp
qed

lemma flt_double_of_int32:
  "flt (Finite False (numeral n)) (double_of_int32 v) \<longleftrightarrow> numeral n < sint v"
  unfolding double_of_int32_def by (rule flt_numeral_of_int)

lemma depth_of_pixel_eq:
  "depth_of_pixel calibration disp =
     (case int32_of_double
             (fmul binary64 kMetersToMillimeters (DepthFromDisparity disp calibration)) of
        Inl e \<Rightarrow> Inl e
      | Inr depth_mm \<Rightarrow>
          Inr (if 15000 < sint depth_mm \<or> sint depth_mm < 500 then 32767 else scast depth_mm))"
  by (simp add: depth_of_pixel_def min_depth_value max_depth_value flt_double_of_int32
      int16_max_def split: sum.splits)

lemma sint_scast_16:
  fixes v :: int32
  assumes "- (2 ^ 15) \<le> sint v" "sint v < 2 ^ 15"
  shows "sint (scast v :: int16) = sint v"
  using assms by (simp add: signed_scast_eq signed_take_bit_int_eq_self)


lemma sint_word_of_int_32:
  assumes "- (2 ^ 31) \<le> t" "t < 2 ^ 31"
  shows "sint (word_of_int t :: int32) = t"
  using assms by (simp add: sint_sbintrunc' signed_take_bit_int_eq_self)

lemma int32_of_double_Inr:
  assumes "int32_of_double x = Inr v"
  shows "\<exists>s m. x = Finite s m \<and> sint v = (if s then - \<lfloor>m\<rfloor> else \<lfloor>m\<rfloor>)"
proof (cases x)
  case (Finite s m)
  let ?t = "if s then - \<lfloor>m\<rfloor> else \<lfloor>m\<rfloor>"
  from assms Finite have r: "- (2 ^ 31) \<le> ?t" "?t < 2 ^ 31" and v: "v = word_of_int ?t"
    by (auto simp: int32_of_double_def Let_def split: if_splits)
  have "sint v = ?t" unfolding v using r by (rule sint_word_of_int_32)
  with Finite show ?thesis by blast
next
  case (Infinity s)
  with assms show ?thesis by (simp add: int32_of_double_def)
next
  case NaN
  with assms show ?thesis by (simp add: int32_of_double_def)
qed


lemma stored_value:
  fixes v :: int32
  shows "sint (if 15000 < sint v \<or> sint v < 500 then 32767 else scast v :: int16)
     = (if 15000 < sint v \<or> sint v < 500 then 32767 else sint v)"
  by (simp add: sint_scast_16)

lemma depth_of_pixel_range:
  assumes "depth_of_pixel c x = Inr w"
  shows "(500 \<le> sint w \<and> sint w \<le> 15000) \<or> w = 32767"
proof -
  from assms have "\<exists>v :: int32. w = (if 15000 < sint v \<or> sint v < 500 then 32767 else scast v)"
    by (auto simp: depth_of_pixel_eq split: sum.splits)
  then obtain v :: int32 where
    w: "w = (if 15000 < sint v \<or> sint v < 500 then 32767 else scast v)"
    by blast
  show ?thesis
  proof (cases "15000 < sint v \<or> sint v < 500")
    case True
    then show ?thesis using w by simp
  next
    case False
    then have "sint w = sint v" using w stored_value [of v] by simp
    with False show ?thesis by simp
  qed
qed


section \<open>The loops of DepthFromDisparityMap\<close>

lemma mat_put_Inr:
  "mat_put m i j v = Inr m' \<longleftrightarrow>
     i < rows m \<and> j < cols m \<and> i * cols m + j < length (elems m)
     \<and> m' = m\<lparr>elems := (elems m)[i * cols m + j := v]\<rparr>"
  by (auto simp: mat_put_def)

lemma cols_loop_ok:
  assumes "cols_loop tf d c i j out = (out', None)"
  shows "rows out' = rows out \<and> cols out' = cols out \<and> length (elems out') = length (elems out)
    \<and> (\<forall>k. k < i * cols out + j \<or> i * cols out + cols d \<le> k \<longrightarrow> elems out' ! k = elems out ! k)
    \<and> (\<forall>j'. j \<le> j' \<and> j' < cols d \<longrightarrow>
          i < rows out \<and> j' < cols out \<and> i * cols out + j' < length (elems out)
          \<and> (\<exists>x v. mat_at d i j' = Inr x \<and> depth_of_pixel c (tf x) = Inr v
                 \<and> elems out' ! (i * cols out + j') = v))"
  using assms
proof (induction tf d c i j out rule: cols_loop.induct)
  case (1 tf d c i j out)
  show ?case
  proof (cases "j < cols d")
    case False
    then have "out' = out"
      using "1.prems" by (simp add: cols_loop.simps [of tf d c i j out])
    with False show ?thesis by auto
  next
    case True
    from "1.prems" True obtain x v out1 where
      x: "mat_at d i j = Inr x" and v: "depth_of_pixel c (tf x) = Inr v"
      and p: "mat_put out i j v = Inr out1"
      and rest: "cols_loop tf d c i (j + 1) out1 = (out', None)"
      by (simp add: cols_loop.simps [of tf d c i j out] split: sum.splits)
    note IH = "1.IH" [OF True x v p rest]
    from p have o1: "i < rows out" "j < cols out" "i * cols out + j < length (elems out)"
      "rows out1 = rows out" "cols out1 = cols out"
      "elems out1 = (elems out)[i * cols out + j := v]"
      by (auto simp: mat_put_Inr)
    have len: "length (elems out1) = length (elems out)" by (simp add: o1)
    have here: "elems out' ! (i * cols out + j) = v"
      using IH o1 by simp
    have frame: "elems out' ! k = elems out ! k"
      if "k < i * cols out + j \<or> i * cols out + cols d \<le> k" for k
    proof -
      have "k \<noteq> i * cols out + j" using that True by auto
      moreover have "elems out' ! k = elems out1 ! k" using IH that o1 by auto
      ultimately show ?thesis by (simp add: o1)
    qed
    have written: "i < rows out \<and> j' < cols out \<and> i * cols out + j' < length (elems out)
          \<and> (\<exists>x v. mat_at d i j' = Inr x \<and> depth_of_pixel c (tf x) = Inr v
                 \<and> elems out' ! (i * cols out + j') = v)"
      if "j \<le> j'" "j' < cols d" for j'
    proof (cases "j' = j")
      case True
      then show ?thesis using o1 x v here by auto
    next
      case False
      then have "j + 1 \<le> j'" using that by simp
      then show ?thesis using IH that(2) o1 len by auto
    qed
    show ?thesis
      using IH o1 len frame written by auto
  qed
qed

lemma rows_loop_ok:
  assumes "rows_loop tf d c i out = (out', None)" "cols d = cols out"
  shows "rows out' = rows out \<and> cols out' = cols out \<and> length (elems out') = length (elems out)
    \<and> (\<forall>k. k < i * cols out \<longrightarrow> elems out' ! k = elems out ! k)
    \<and> (\<forall>i' j'. i \<le> i' \<and> i' < rows d \<and> j' < cols d \<longrightarrow>
          i' < rows out \<and> i' * cols out + j' < length (elems out)
          \<and> (\<exists>x v. mat_at d i' j' = Inr x \<and> depth_of_pixel c (tf x) = Inr v
                 \<and> elems out' ! (i' * cols out + j') = v))"
  using assms
proof (induction tf d c i out rule: rows_loop.induct)
  case (1 tf d c i out)
  show ?case
  proof (cases "i < rows d")
    case False
    then have "out' = out"
      using "1.prems" by (simp add: rows_loop.simps [of tf d c i out])
    with False show ?thesis by auto
  next
    case True
    from "1.prems" True obtain out1 where
      row: "cols_loop tf d c i 0 out = (out1, None)"
      and rest: "rows_loop tf d c (i + 1) out1 = (out', None)"
      by (simp add: rows_loop.simps [of tf d c i out] split: prod.splits option.splits)
    note R = cols_loop_ok [OF row]
    have c1: "cols d = cols out1" using R "1.prems"(2) by simp
    note IH = "1.IH" [OF True row [symmetric] refl rest c1]
    have frame: "elems out' ! k = elems out ! k" if "k < i * cols out" for k
    proof -
      have "k < (i + 1) * cols out1" using that R by simp
      then have "elems out' ! k = elems out1 ! k" using IH by blast
      moreover have "elems out1 ! k = elems out ! k" using R that by simp
      ultimately show ?thesis by simp
    qed
    have written: "i' < rows out \<and> i' * cols out + j' < length (elems out)
          \<and> (\<exists>x v. mat_at d i' j' = Inr x \<and> depth_of_pixel c (tf x) = Inr v
                 \<and> elems out' ! (i' * cols out + j') = v)"
      if "i \<le> i'" "i' < rows d" "j' < cols d" for i' j'
    proof (cases "i' = i")
      case True
      have "i * cols out + j' < (i + 1) * cols out1" using that(3) R "1.prems"(2) by simp
      then have "elems out' ! (i * cols out + j') = elems out1 ! (i * cols out + j')"
        using IH by blast
      then show ?thesis using R that(3) True by auto
    next
      case False
      then have "i + 1 \<le> i'" using that by simp
      then show ?thesis using IH that R by auto
    qed
    show ?thesis
      using IH R frame written by auto
  qed
qed






lemma DepthFromDisparityMap_ok:
  assumes "DepthFromDisparityMap tf d c out0 = (out, None)"
  shows "rows out = rows d \<and> cols out = cols d \<and> length (elems out) = length (elems out0)
    \<and> rows out0 = rows d \<and> cols out0 = cols d
    \<and> (\<forall>i j. i < rows d \<and> j < cols d \<longrightarrow>
          i * cols d + j < length (elems out)
          \<and> (\<exists>x v. mat_at d i j = Inr x \<and> depth_of_pixel c (tf x) = Inr v
                 \<and> elems out ! (i * cols d + j) = v))"
proof -
  from assms have sz: "rows d = rows out0" "cols d = cols out0"
    and run: "rows_loop tf d c 0 out0 = (out, None)"
    by (auto simp: DepthFromDisparityMap_def split: if_splits)
  from rows_loop_ok [OF run sz(2)] sz show ?thesis by auto
qed

text \<open>The loops complete when every pixel has a defined conversion.\<close>

lemma index_in_range:
  fixes i j r c :: nat
  assumes "i < r" "j < c"
  shows "i * c + j < r * c"
proof -
  have "i * c + j < i * c + c" using assms(2) by simp
  also have "\<dots> = (i + 1) * c" by simp
  also have "\<dots> \<le> r * c" using assms(1) by (intro mult_le_mono1) simp
  finally show ?thesis .
qed

lemma cols_loop_completes:
  assumes "i < rows out" "cols d = cols out" "length (elems out) = rows out * cols out"
    and "\<forall>j'. j \<le> j' \<and> j' < cols d \<longrightarrow>
           (\<exists>x v. mat_at d i j' = Inr x \<and> depth_of_pixel c (tf x) = Inr v)"
  shows "\<exists>out'. cols_loop tf d c i j out = (out', None)"
  using assms
proof (induction tf d c i j out rule: cols_loop.induct)
  case (1 tf d c i j out)
  show ?case
  proof (cases "j < cols d")
    case False
    then show ?thesis by (simp add: cols_loop.simps [of tf d c i j out])
  next
    case True
    with "1.prems"(4) obtain x v where
      x: "mat_at d i j = Inr x" and v: "depth_of_pixel c (tf x) = Inr v"
      by blast
    have "i * cols out + j < length (elems out)"
      using "1.prems"(1,2,3) True by (simp add: index_in_range)
    then have p: "mat_put out i j v = Inr (out\<lparr>elems := (elems out)[i * cols out + j := v]\<rparr>)"
      using "1.prems"(1,2) True by (simp add: mat_put_def)
    have "\<exists>out'. cols_loop tf d c i (j + 1)
        (out\<lparr>elems := (elems out)[i * cols out + j := v]\<rparr>) = (out', None)"
      using "1.prems" by (intro "1.IH" [OF True x v p]) auto
    then show ?thesis
      using True x v p by (simp add: cols_loop.simps [of tf d c i j out])
  qed
qed

lemma rows_loop_completes:
  assumes "rows d = rows out" "cols d = cols out" "length (elems out) = rows out * cols out"
    and "\<forall>i' j'. i \<le> i' \<and> i' < rows d \<and> j' < cols d \<longrightarrow>
           (\<exists>x v. mat_at d i' j' = Inr x \<and> depth_of_pixel c (tf x) = Inr v)"
  shows "\<exists>out'. rows_loop tf d c i out = (out', None)"
  using assms
proof (induction tf d c i out rule: rows_loop.induct)
  case (1 tf d c i out)
  show ?case
  proof (cases "i < rows d")
    case False
    then show ?thesis by (simp add: rows_loop.simps [of tf d c i out])
  next
    case True
    have "\<exists>out1. cols_loop tf d c i 0 out = (out1, None)"
      using "1.prems" True by (intro cols_loop_completes) auto
    then obtain out1 where row: "cols_loop tf d c i 0 out = (out1, None)" ..
    note R = cols_loop_ok [OF row]
    have "\<exists>out'. rows_loop tf d c (i + 1) out1 = (out', None)"
      using "1.prems" R by (intro "1.IH" [OF True row [symmetric] refl]) auto
    then show ?thesis
      using True row by (simp add: rows_loop.simps [of tf d c i out])
  qed
qed

lemma DepthFromDisparityMap_completes:
  assumes "rows d = rows out0" "cols d = cols out0"
    and "length (elems out0) = rows out0 * cols out0"
    and "\<forall>i j. i < rows d \<and> j < cols d \<longrightarrow>
           (\<exists>x v. mat_at d i j = Inr x \<and> depth_of_pixel c (tf x) = Inr v)"
  shows "\<exists>out. DepthFromDisparityMap tf d c out0 = (out, None)"
  using rows_loop_completes [OF assms(1,2,3), of 0 c tf] assms
  by (simp add: DepthFromDisparityMap_def)

text \<open>Rules to evaluate the functions on concrete matrices.\<close>

lemmas float_eval =
  DepthFromDisparity_def new_StereoCalibration_def kMetersToMillimeters_def fround_def
  round_half_even_eval floor_eval binary32_def binary64_def emin_def float_of_float_def
  float_of_uint16_def int32_of_double_def depth_of_pixel_eq

lemma replicate_numeral_eval: "replicate (numeral n) x = x # replicate (pred_numeral n) x"
  by (simp add: numeral_eq_Suc)

lemmas loop_eval = replicate_numeral_eval
  DepthFromDisparityMap_def rows_loop.simps cols_loop.simps mat_at_def mat_put_def new_Mat_def
  map_Mat_def

section \<open>StereoCalibration and DepthFromDisparity\<close>

text \<open>
  C10. Constructing a \<^verbatim>\<open>StereoCalibration\<close> succeeds for every pair of float arguments,
  zero, negative, infinite and NaN included, and stores both verbatim; and
  \<^verbatim>\<open>DepthFromDisparity\<close> is the bare quotient of the product by the disparity, on every
  calibration and every disparity: neither checks positivity or finiteness.
\<close>

theorem calibration_stored_verbatim_unchecked:
  "baseline_meters (new_StereoCalibration b f) = b
   \<and> focal_length_px (new_StereoCalibration b f) = f
   \<and> DepthFromDisparity d (new_StereoCalibration b f) = fdiv binary32 (fmul binary32 b f) d
   \<and> new_StereoCalibration (Finite False 0) (Finite True 1)
       = \<lparr>baseline_meters = Finite False 0, focal_length_px = Finite True 1\<rparr>
   \<and> new_StereoCalibration NaN (Infinity True)
       = \<lparr>baseline_meters = NaN, focal_length_px = Infinity True\<rparr>
   \<and> DepthFromDisparity (Finite False 0) (new_StereoCalibration (Finite True 1) (Finite False 1))
       = Infinity True
   \<and> DepthFromDisparity (Finite False 1) (new_StereoCalibration NaN (Finite False 1)) = NaN"
  by (simp add: new_StereoCalibration_def DepthFromDisparity_def fround_def
      round_mag_eval [where k = 0] round_half_even_eval binary32_def emin_def)

lemma fround_mono:
  assumes "0 < prec F" "0 \<le> m" "m \<le> n"
  shows "fle (fround F False m) (fround F False n)"
  using round_mag_mono [OF assms] by (auto simp: fround_def Let_def)

lemma DepthFromDisparity_positive:
  assumes "0 < d"
  shows "DepthFromDisparity (Finite False d) (new_StereoCalibration (Finite False b) (Finite False f))
    = (case fround binary32 False (b * f) of
         Finite s p \<Rightarrow> fround binary32 False (p / d) | other \<Rightarrow> other)"
  using assms
  by (simp add: DepthFromDisparity_def new_StereoCalibration_def fround_def Let_def)

text \<open>
  C1, as the code has it. For positive finite baseline, focal length and disparity,
  \<^verbatim>\<open>DepthFromDisparity\<close> is the product rounded to the nearest float (or plus infinity
  when it overflows), divided by the disparity and rounded to the nearest float again; and
  it does not increase when the disparity increases.
\<close>

theorem DepthFromDisparity_rounded_nonincreasing:
  assumes "0 < b" "0 < f" "0 < d1" "d1 \<le> d2"
  shows "DepthFromDisparity (Finite False d1) (new_StereoCalibration (Finite False b) (Finite False f))
      = (case fround binary32 False (b * f) of
           Finite s p \<Rightarrow> fround binary32 False (p / d1) | other \<Rightarrow> other)
    \<and> fle (DepthFromDisparity (Finite False d2) (new_StereoCalibration (Finite False b) (Finite False f)))
          (DepthFromDisparity (Finite False d1) (new_StereoCalibration (Finite False b) (Finite False f)))"
proof -
  have d2: "0 < d2" using assms by simp
  have p32: "0 < prec binary32" by (simp add: binary32_def)
  have r: "0 \<le> round_mag binary32 (b * f)"
    using assms by (intro round_mag_nonneg) simp
  have q: "round_mag binary32 (b * f) / d2 \<le> round_mag binary32 (b * f) / d1"
    using r assms by (simp add: divide_left_mono)
  have q0: "0 \<le> round_mag binary32 (b * f) / d2" using r d2 by simp
  have "fle (case fround binary32 False (b * f) of
           Finite s p \<Rightarrow> fround binary32 False (p / d2) | other \<Rightarrow> other)
        (case fround binary32 False (b * f) of
           Finite s p \<Rightarrow> fround binary32 False (p / d1) | other \<Rightarrow> other)"
    using fround_mono [OF p32 q0 q] by (simp add: fround_def [of binary32 False "b * f"] Let_def)
  then show ?thesis
    by (simp only: DepthFromDisparity_positive [OF assms(3)] DepthFromDisparity_positive [OF d2])
qed

text \<open>
  C1 as stated fails: with baseline 0.5 and focal length 700, the two neighbouring float
  disparities 63.99999237060547 and 63.999996185302734 give the same depth, which is
  not the exact quotient.
\<close>

theorem DepthFromDisparity_not_strictly_decreasing:
  "flt (Finite False (8388607 / 131072)) (Finite False (16777215 / 262144))
   \<and> DepthFromDisparity (Finite False (8388607 / 131072))
        (new_StereoCalibration (Finite False (1 / 2)) (Finite False 700))
      = Finite False (11468801 / 2097152)
   \<and> DepthFromDisparity (Finite False (16777215 / 262144))
        (new_StereoCalibration (Finite False (1 / 2)) (Finite False 700))
      = Finite False (11468801 / 2097152)
   \<and> (1 / 2 * 700 :: rat) / (8388607 / 131072) \<noteq> 11468801 / 2097152"
  by (simp add: DepthFromDisparity_def new_StereoCalibration_def fround_def
      round_mag_eval [where k = 8] round_mag_eval [where k = 2] round_half_even_eval
      binary32_def emin_def)

theorem DepthFromDisparity_rounded_nonincreasing_witness:
  "(0::rat) < 1 / 2 \<and> (0::rat) < 700 \<and> (0::rat) < 8388607 / 131072
   \<and> (8388607 / 131072 :: rat) \<le> 16777215 / 262144
   \<and> DepthFromDisparity (Finite False (8388607 / 131072))
        (new_StereoCalibration (Finite False (1 / 2)) (Finite False 700))
      = Finite False (11468801 / 2097152)
   \<and> fle (DepthFromDisparity (Finite False (16777215 / 262144))
          (new_StereoCalibration (Finite False (1 / 2)) (Finite False 700)))
        (DepthFromDisparity (Finite False (8388607 / 131072))
          (new_StereoCalibration (Finite False (1 / 2)) (Finite False 700)))"
  using DepthFromDisparity_rounded_nonincreasing
    [of "1 / 2" 700 "8388607 / 131072" "16777215 / 262144"]
  by (auto simp add: fround_def round_mag_eval [where k = 8] round_mag_eval [where k = 2]
      round_half_even_eval binary32_def emin_def)

section \<open>DepthFromDisparityMap\<close>



section \<open>DepthFromStereo\<close>

lemma DepthFromDisparityMap_range:
  assumes "DepthFromDisparityMap tf d c out0 = (out, None)"
    and "length (elems out0) = rows out0 * cols out0"
  shows "\<forall>w \<in> set (elems out). (500 \<le> sint w \<and> sint w \<le> 15000) \<or> w = 32767"
proof
  fix w assume "w \<in> set (elems out)"
  then obtain k where k: "k < length (elems out)" and w: "w = elems out ! k"
    by (auto simp: in_set_conv_nth)
  note ok = DepthFromDisparityMap_ok [OF assms(1)]
  have len: "length (elems out) = rows d * cols d" using ok assms(2) by simp
  have cpos: "0 < cols d" using k len by (cases "cols d") auto
  have i: "k div cols d < rows d"
    using k len cpos by (simp add: less_mult_imp_div_less)
  have j: "k mod cols d < cols d" using cpos by simp
  have "k div cols d * cols d + k mod cols d = k" by simp
  with ok i j obtain x where "depth_of_pixel c (tf x) = Inr (elems out ! k)"
    by metis
  then show "(500 \<le> sint w \<and> sint w \<le> 15000) \<or> w = 32767"
    unfolding w by (rule depth_of_pixel_range)
qed

lemma new_Mat_simps:
  "rows (new_Mat r c v) = r" "cols (new_Mat r c v) = c"
  "length (elems (new_Mat r c v)) = r * c"
  by (simp_all add: new_Mat_def)

text \<open>
  C3. In disparity-conversion mode, every element of the depth matrix that
  \<^verbatim>\<open>DepthFromStereo\<close> completes with is a depth in millimeters from 500 to 15000, or is
  32767 (\<^verbatim>\<open>INT16_MAX\<close>).
\<close>

theorem DepthFromStereo_range:
  assumes "\<not> input_is_depth this"
    and "DepthFromStereo lib this left right calibration out_depth0 = (out_depth, None)"
  shows "\<exists>out. out_depth = Mat16S out
    \<and> (\<forall>w \<in> set (elems out). (500 \<le> sint w \<and> sint w \<le> 15000) \<or> w = 32767)"
proof (cases "DisparityMapFromStereo this left right empty_Mat")
  case (Mat32F d)
  with assms obtain out where
    run: "DepthFromDisparityMap float_of_float d calibration
            (new_Mat (rows d) (cols d) (of_nat CV_16SC1)) = (out, None)"
    and out: "out_depth = Mat16S out"
    by (auto simp: DepthFromStereo_def Let_def split: prod.splits)
  from DepthFromDisparityMap_range [OF run] out show ?thesis
    by (simp add: new_Mat_simps)
next
  case (Mat16S d)
  with assms obtain out where
    run: "DepthFromDisparityMap float_of_uint16 (map_Mat (Mat_uint16 lib) d) calibration
            (new_Mat (rows d) (cols d) (of_nat CV_16SC1)) = (out, None)"
    and out: "out_depth = Mat16S out"
    by (auto simp: DepthFromStereo_def Let_def split: prod.splits)
  from DepthFromDisparityMap_range [OF run] out show ?thesis
    by (simp add: new_Mat_simps)
next
  case (MatOther t m)
  with assms show ?thesis
    by (simp add: DepthFromStereo_def Let_def)
qed

text \<open>
  C9. When the estimator's matrix has \<open>H\<close> rows and \<open>W\<close> columns, the matrix that
  \<^verbatim>\<open>DepthFromStereo\<close> completes with has \<open>H\<close> rows and \<open>W\<close> columns, in passthrough
  mode and in conversion mode, where it holds \<open>H * W\<close> elements.
\<close>

theorem DepthFromStereo_size:
  assumes "DepthFromStereo lib this left right calibration out_depth0 = (out_depth, None)"
    and "mat_rows (DisparityMapFromStereo this left right
            (if input_is_depth this then out_depth0 else empty_Mat)) = H"
    and "mat_cols (DisparityMapFromStereo this left right
            (if input_is_depth this then out_depth0 else empty_Mat)) = W"
  shows "mat_rows out_depth = H \<and> mat_cols out_depth = W
    \<and> (input_is_depth this \<or> (\<exists>out. out_depth = Mat16S out \<and> length (elems out) = H * W))"
proof (cases "input_is_depth this")
  case True
  with assms show ?thesis by (simp add: DepthFromStereo_def)
next
  case False
  show ?thesis
  proof (cases "DisparityMapFromStereo this left right empty_Mat")
    case (Mat32F d)
    with assms False obtain out where
      run: "DepthFromDisparityMap float_of_float d calibration
              (new_Mat (rows d) (cols d) (of_nat CV_16SC1)) = (out, None)"
      and out: "out_depth = Mat16S out"
      by (auto simp: DepthFromStereo_def Let_def split: prod.splits)
    from DepthFromDisparityMap_ok [OF run] out assms(2,3) False Mat32F show ?thesis
      by (simp add: new_Mat_simps)
  next
    case (Mat16S d)
    with assms False obtain out where
      run: "DepthFromDisparityMap float_of_uint16 (map_Mat (Mat_uint16 lib) d) calibration
              (new_Mat (rows d) (cols d) (of_nat CV_16SC1)) = (out, None)"
      and out: "out_depth = Mat16S out"
      by (auto simp: DepthFromStereo_def Let_def split: prod.splits)
    from DepthFromDisparityMap_ok [OF run] out assms(2,3) False Mat16S show ?thesis
      by (simp add: new_Mat_simps map_Mat_def)
  next
    case (MatOther t m)
    with assms False show ?thesis
      by (simp add: DepthFromStereo_def Let_def)
  qed
qed


text \<open>
  C7. In depth-passthrough mode \<^verbatim>\<open>DepthFromStereo\<close> leaves in \<^verbatim>\<open>out_depth\<close> what the
  estimator wrote there, whatever its type and its values, and throws nothing.
\<close>

theorem DepthFromStereo_passthrough:
  assumes "input_is_depth this"
  shows "DepthFromStereo lib this left right calibration out_depth0
    = (DisparityMapFromStereo this left right out_depth0, None)"
  using assms by (simp add: DepthFromStereo_def)

theorem DepthFromStereo_range_witness:
  "\<not> input_is_depth
       \<lparr>input_is_depth = False,
        DisparityMapFromStereo = (\<lambda>(l::unit) (r::unit) out. Mat32F
          \<lparr>rows = 2, cols = 2,
           elems = [Finite False 50, Finite False 5, Finite False 50, Finite False 50]\<rparr>)\<rparr>
   \<and> DepthFromStereo
       \<lparr>Type2Str = (\<lambda>t. ''?''), Format = (\<lambda>fmt name. fmt @ name),
        Mat_uint16 = (\<lambda>w. w)\<rparr>
       \<lparr>input_is_depth = False,
        DisparityMapFromStereo = (\<lambda>(l::unit) (r::unit) out. Mat32F
          \<lparr>rows = 2, cols = 2,
           elems = [Finite False 50, Finite False 5, Finite False 50, Finite False 50]\<rparr>)\<rparr>
       () () (new_StereoCalibration (Finite False (9059697 / 16777216)) (Finite False 720))
       empty_Mat
     = (Mat16S \<lparr>rows = 2, cols = 2, elems = [7776, 32767, 7776, 7776]\<rparr>, None)
   \<and> (\<exists>out. Mat16S \<lparr>rows = 2, cols = 2, elems = [7776, 32767, 7776, 7776]\<rparr> = Mat16S out
        \<and> (\<forall>w \<in> set (elems out). (500 \<le> sint w \<and> sint w \<le> 15000) \<or> w = 32767))"
proof -
  have run: "DepthFromStereo
      \<lparr>Type2Str = (\<lambda>t. ''?''), Format = (\<lambda>fmt name. fmt @ name),
       Mat_uint16 = (\<lambda>w. w)\<rparr>
       \<lparr>input_is_depth = False,
        DisparityMapFromStereo = (\<lambda>(l::unit) (r::unit) out. Mat32F
          \<lparr>rows = 2, cols = 2,
           elems = [Finite False 50, Finite False 5, Finite False 50, Finite False 50]\<rparr>)\<rparr>
       () () (new_StereoCalibration (Finite False (9059697 / 16777216)) (Finite False 720))
       empty_Mat
     = (Mat16S \<lparr>rows = 2, cols = 2, elems = [7776, 32767, 7776, 7776]\<rparr>, None)"
    by (simp add: DepthFromStereo_def CV_16SC1_def loop_eval float_eval
        round_mag_eval [where k = 8] round_mag_eval [where k = 2] round_mag_eval [where k = 12]
        round_mag_eval [where k = 6] round_mag_eval [where k = 16])
  have np: "\<not> input_is_depth
       \<lparr>input_is_depth = False,
        DisparityMapFromStereo = (\<lambda>(l::unit) (r::unit) out. Mat32F
          \<lparr>rows = 2, cols = 2,
           elems = [Finite False 50, Finite False 5, Finite False 50, Finite False 50]\<rparr>)\<rparr>"
    by simp
  from DepthFromStereo_range [OF np run] np run show ?thesis by simp
qed

theorem DepthFromStereo_size_witness:
  "DepthFromStereo
      \<lparr>Type2Str = (\<lambda>t. ''?''), Format = (\<lambda>fmt name. fmt @ name),
       Mat_uint16 = (\<lambda>w. w)\<rparr>
       \<lparr>input_is_depth = False,
        DisparityMapFromStereo = (\<lambda>(l::unit) (r::unit) out. Mat32F
          \<lparr>rows = 1, cols = 2, elems = [Finite False 50, Finite False 5]\<rparr>)\<rparr>
       () () (new_StereoCalibration (Finite False (1 / 2)) (Finite False 700)) empty_Mat
     = (Mat16S \<lparr>rows = 1, cols = 2, elems = [7000, 32767]\<rparr>, None)
   \<and> mat_rows (Mat16S \<lparr>rows = 1, cols = 2, elems = [7000, 32767]\<rparr>) = 1
   \<and> mat_cols (Mat16S \<lparr>rows = 1, cols = 2, elems = [7000, 32767]\<rparr>) = 2
   \<and> DepthFromStereo
       \<lparr>Type2Str = (\<lambda>t. ''?''), Format = (\<lambda>fmt name. fmt @ name),
        Mat_uint16 = (\<lambda>w. w)\<rparr>
       \<lparr>input_is_depth = True,
        DisparityMapFromStereo = (\<lambda>(l::unit) (r::unit) out. Mat16S
          \<lparr>rows = 1, cols = 3, elems = [- 5, 20000, 0]\<rparr>)\<rparr>
       () () (new_StereoCalibration (Finite False (1 / 2)) (Finite False 700)) empty_Mat
     = (Mat16S \<lparr>rows = 1, cols = 3, elems = [- 5, 20000, 0]\<rparr>, None)
   \<and> mat_rows (Mat16S \<lparr>rows = 1, cols = 3, elems = [- 5, 20000, 0]\<rparr>) = 1
   \<and> mat_cols (Mat16S \<lparr>rows = 1, cols = 3, elems = [- 5, 20000, 0]\<rparr>) = 3"
  (is "?run1 \<and> ?r1 \<and> ?c1 \<and> ?run2 \<and> ?r2 \<and> ?c2")
proof -
  have run1: ?run1
    by (simp add: DepthFromStereo_def CV_16SC1_def loop_eval float_eval
        round_mag_eval [where k = 8] round_mag_eval [where k = 2] round_mag_eval [where k = 12]
        round_mag_eval [where k = 6] round_mag_eval [where k = 16])
  have run2: ?run2
    by (simp add: DepthFromStereo_def)
  from DepthFromStereo_size [OF run1, of 1 2] DepthFromStereo_size [OF run2, of 1 3] run1 run2
  show ?thesis by simp
qed


theorem DepthFromStereo_passthrough_witness:
  "input_is_depth
       \<lparr>input_is_depth = True,
        DisparityMapFromStereo = (\<lambda>(l::unit) (r::unit) out. Mat16S
          \<lparr>rows = 1, cols = 3, elems = [- 5, 20000, 0]\<rparr>)\<rparr>
   \<and> DepthFromStereo
       \<lparr>Type2Str = (\<lambda>t. ''?''), Format = (\<lambda>fmt name. fmt @ name),
        Mat_uint16 = (\<lambda>w. w)\<rparr>
       \<lparr>input_is_depth = True,
        DisparityMapFromStereo = (\<lambda>(l::unit) (r::unit) out. Mat16S
          \<lparr>rows = 1, cols = 3, elems = [- 5, 20000, 0]\<rparr>)\<rparr>
       () () (new_StereoCalibration (Finite False (1 / 2)) (Finite False 700)) empty_Mat
     = (Mat16S \<lparr>rows = 1, cols = 3, elems = [- 5, 20000, 0]\<rparr>, None)
   \<and> DepthFromStereo
       \<lparr>Type2Str = (\<lambda>t. ''?''), Format = (\<lambda>fmt name. fmt @ name),
        Mat_uint16 = (\<lambda>w. w)\<rparr>
       \<lparr>input_is_depth = True,
        DisparityMapFromStereo = (\<lambda>(l::unit) (r::unit) out.
          MatOther 0 \<lparr>rows = 1, cols = 2, elems = [(), ()]\<rparr>)\<rparr>
       () () (new_StereoCalibration (Finite False (1 / 2)) (Finite False 700)) empty_Mat
     = (MatOther 0 \<lparr>rows = 1, cols = 2, elems = [(), ()]\<rparr>, None)"
  (is "?p \<and> ?run1 \<and> ?run2")
proof -
  have p: ?p by simp
  have p2: "input_is_depth
       \<lparr>input_is_depth = True,
        DisparityMapFromStereo = (\<lambda>(l::unit) (r::unit) out.
          MatOther 0 \<lparr>rows = 1, cols = 2, elems = [(), ()]\<rparr>)\<rparr>" by simp
  from DepthFromStereo_passthrough [OF p] DepthFromStereo_passthrough [OF p2] p
  show ?thesis by simp
qed

section \<open>The range test and invalid pixels\<close>

lemma scast_not_sentinel:
  fixes v :: int32
  assumes "\<not> (15000 < sint v \<or> sint v < 500)"
  shows "(scast v :: int16) \<noteq> 32767"
proof
  assume "(scast v :: int16) = 32767"
  then have "sint (scast v :: int16) = sint (32767 :: int16)" by simp
  moreover have "sint (scast v :: int16) = sint v"
    using assms by (intro sint_scast_16) auto
  ultimately show False using assms by simp
qed

text \<open>
  C4, as the code has it. The test is \<^verbatim>\<open>depth_mm > 15000\<close>: a pixel is replaced by 32767
  (\<^verbatim>\<open>INT16_MAX\<close>) exactly when its computed millimeter depth is greater than 15000 or less
  than 500. A pixel whose depth is exactly 15000 is retained, as is one of 14999; one of
  15001 is replaced.
\<close>

theorem depth_of_pixel_upper_bound:
  assumes "int32_of_double
      (fmul binary64 kMetersToMillimeters (DepthFromDisparity disp calibration)) = Inr depth_mm"
  shows "(depth_of_pixel calibration disp = Inr 32767
          \<longleftrightarrow> 15000 < sint depth_mm \<or> sint depth_mm < 500)
    \<and> (depth_mm = 15000 \<longrightarrow> depth_of_pixel calibration disp = Inr 15000)
    \<and> (depth_mm = 14999 \<longrightarrow> depth_of_pixel calibration disp = Inr 14999)
    \<and> (depth_mm = 15001 \<longrightarrow> depth_of_pixel calibration disp = Inr 32767)"
  using assms scast_not_sentinel [of depth_mm]
  by (auto simp: depth_of_pixel_eq)

text \<open>
  C4 as stated fails: with baseline 0.5 and focal length 960 a disparity of 32 is a depth
  of exactly 15 m, 15000 mm, and 15000 is what \<^verbatim>\<open>DepthFromStereo\<close> stores.
\<close>

theorem depth_15000_retained:
  "int32_of_double (fmul binary64 kMetersToMillimeters
      (DepthFromDisparity (Finite False 32)
        (new_StereoCalibration (Finite False (1 / 2)) (Finite False 960)))) = Inr 15000
   \<and> DepthFromStereo
       \<lparr>Type2Str = (\<lambda>t. ''?''), Format = (\<lambda>fmt name. fmt @ name),
        Mat_uint16 = (\<lambda>w. w)\<rparr>
       \<lparr>input_is_depth = False,
        DisparityMapFromStereo = (\<lambda>(l::unit) (r::unit) out. Mat32F
          \<lparr>rows = 1, cols = 1, elems = [Finite False 32]\<rparr>)\<rparr>
       () () (new_StereoCalibration (Finite False (1 / 2)) (Finite False 960)) empty_Mat
     = (Mat16S \<lparr>rows = 1, cols = 1, elems = [15000]\<rparr>, None)
   \<and> (15000 :: int16) \<noteq> 32767"
  by (simp add: DepthFromStereo_def CV_16SC1_def loop_eval float_eval
      round_mag_eval [where k = 8] round_mag_eval [where k = 3] round_mag_eval [where k = 13])

theorem depth_of_pixel_upper_bound_witness:
  "int32_of_double (fmul binary64 kMetersToMillimeters
      (DepthFromDisparity (Finite False 32)
        (new_StereoCalibration (Finite False (1 / 2)) (Finite False 960)))) = Inr 15000
   \<and> depth_of_pixel (new_StereoCalibration (Finite False (1 / 2)) (Finite False 960))
        (Finite False 32) = Inr 15000
   \<and> int32_of_double (fmul binary64 kMetersToMillimeters
      (DepthFromDisparity (Finite False 32)
        (new_StereoCalibration (Finite False (1 / 2)) (Finite False (30719 / 32))))) = Inr 14999
   \<and> depth_of_pixel (new_StereoCalibration (Finite False (1 / 2)) (Finite False (30719 / 32)))
        (Finite False 32) = Inr 14999
   \<and> int32_of_double (fmul binary64 kMetersToMillimeters
      (DepthFromDisparity (Finite False 32)
        (new_StereoCalibration (Finite False (1 / 2)) (Finite False (30723 / 32))))) = Inr 15001
   \<and> depth_of_pixel (new_StereoCalibration (Finite False (1 / 2)) (Finite False (30723 / 32)))
        (Finite False 32) = Inr 32767"
  (is "?a \<and> ?ra \<and> ?b \<and> ?rb \<and> ?c \<and> ?rc")
proof -
  have a: ?a
    by (simp add: float_eval
        round_mag_eval [where k = 8] round_mag_eval [where k = 3] round_mag_eval [where k = 13])
  have b: ?b
    by (simp add: float_eval
        round_mag_eval [where k = 8] round_mag_eval [where k = 3] round_mag_eval [where k = 13])
  have c: ?c
    by (simp add: float_eval
        round_mag_eval [where k = 8] round_mag_eval [where k = 3] round_mag_eval [where k = 13])
  from depth_of_pixel_upper_bound [OF a] depth_of_pixel_upper_bound [OF b]
    depth_of_pixel_upper_bound [OF c] a b c
  show ?thesis by simp
qed

lemma fround_cases:
  "fround F s x = Infinity s \<or> fround F s x = Finite s (round_mag F x)"
  by (simp add: fround_def Let_def)

lemma depth_mm_of_negative_disparity:
  assumes "0 < b" "0 < f" "0 < m"
    and "int32_of_double (fmul binary64 kMetersToMillimeters
          (DepthFromDisparity (Finite True m)
            (new_StereoCalibration (Finite False b) (Finite False f)))) = Inr depth_mm"
  shows "sint depth_mm \<le> 0"
proof -
  let ?p = "round_mag binary32 (b * f)"
  have p: "0 \<le> ?p" using assms(1,2) by (intro round_mag_nonneg) simp
  let ?q = "round_mag binary32 (?p / m)"
  have q: "0 \<le> ?q" using p assms(3) by (intro round_mag_nonneg) simp
  let ?r = "round_mag binary64 (1000 * ?q)"
  have r: "0 \<le> ?r" using q by (intro round_mag_nonneg) simp
  let ?D = "DepthFromDisparity (Finite True m)
            (new_StereoCalibration (Finite False b) (Finite False f))"
  have D: "?D = Infinity True \<or> ?D = Finite True ?q"
    using assms(3) fround_cases [of binary32 False "b * f"] fround_cases [of binary32 True "?p / m"]
    by (auto simp: DepthFromDisparity_def new_StereoCalibration_def)
  have "fmul binary64 kMetersToMillimeters ?D = Infinity True
      \<or> fmul binary64 kMetersToMillimeters ?D = Finite True ?r"
    using D fround_cases [of binary64 True "1000 * ?q"]
    by (auto simp: kMetersToMillimeters_def)
  with assms(4) have conv: "int32_of_double (Finite True ?r) = Inr depth_mm"
    by (auto simp: int32_of_double_def)
  from int32_of_double_Inr [OF conv] have "sint depth_mm = - \<lfloor>?r\<rfloor>" by auto
  with r show ?thesis by simp
qed

text \<open>The loops with the processor's conversion.\<close>

lemma int32_of_double_on_Inr: "int32_of_double x = Inr v \<Longrightarrow> int32_of_double_on indefinite x = v"
  by (simp add: int32_of_double_on_def)

lemma depth_of_pixel_on_eq:
  "depth_of_pixel_on indefinite calibration disp =
     (let depth_mm = int32_of_double_on indefinite
            (fmul binary64 kMetersToMillimeters (DepthFromDisparity disp calibration))
      in if 15000 < sint depth_mm \<or> sint depth_mm < 500 then 32767 else scast depth_mm)"
  by (simp add: depth_of_pixel_on_def int32_of_double_on_Inr [OF min_depth_value]
      max_depth_value flt_double_of_int32 int16_max_def Let_def)

lemma depth_of_pixel_on_agrees:
  assumes "depth_of_pixel calibration disp = Inr w"
  shows "depth_of_pixel_on indefinite calibration disp = w"
  using assms
  by (auto simp: depth_of_pixel_eq depth_of_pixel_on_eq int32_of_double_on_def Let_def
      split: sum.splits)

lemma cols_loop_on_ok:
  assumes "i < rows d" "i < rows out" "cols d = cols out"
    and "rows d * cols d \<le> length (elems d)" "rows out * cols out \<le> length (elems out)"
  shows "\<exists>out'. cols_loop_on ind tf d c i j out = (out', None)
    \<and> rows out' = rows out \<and> cols out' = cols out \<and> length (elems out') = length (elems out)
    \<and> (\<forall>k. k < i * cols out + j \<or> i * cols out + cols d \<le> k \<longrightarrow> elems out' ! k = elems out ! k)
    \<and> (\<forall>j'. j \<le> j' \<and> j' < cols d \<longrightarrow>
          elems out' ! (i * cols out + j')
            = depth_of_pixel_on ind c (tf (elems d ! (i * cols d + j'))))"
  using assms
proof (induction ind tf d c i j out rule: cols_loop_on.induct)
  case (1 ind tf d c i j out)
  show ?case
  proof (cases "j < cols d")
    case False
    then show ?thesis by (auto simp: cols_loop_on.simps [of ind tf d c i j out])
  next
    case True
    let ?x = "elems d ! (i * cols d + j)"
    let ?v = "depth_of_pixel_on ind c (tf ?x)"
    let ?out1 = "out\<lparr>elems := (elems out)[i * cols out + j := ?v]\<rparr>"
    have id: "i * cols d + j < length (elems d)"
      using index_in_range [OF "1.prems"(1) True] "1.prems"(4) by simp
    have io: "i * cols out + j < length (elems out)"
      using index_in_range [OF "1.prems"(2), of j "cols out"] True "1.prems"(3,5) by simp
    have x: "mat_at d i j = Inr ?x"
      using "1.prems"(1) True id by (simp add: mat_at_def)
    have p: "mat_put out i j ?v = Inr ?out1"
      using "1.prems"(2,3) True io by (simp add: mat_put_def)
    have "\<exists>out'. cols_loop_on ind tf d c i (j + 1) ?out1 = (out', None)
      \<and> rows out' = rows ?out1 \<and> cols out' = cols ?out1
      \<and> length (elems out') = length (elems ?out1)
      \<and> (\<forall>k. k < i * cols ?out1 + (j + 1) \<or> i * cols ?out1 + cols d \<le> k \<longrightarrow>
            elems out' ! k = elems ?out1 ! k)
      \<and> (\<forall>j'. j + 1 \<le> j' \<and> j' < cols d \<longrightarrow>
            elems out' ! (i * cols ?out1 + j')
              = depth_of_pixel_on ind c (tf (elems d ! (i * cols d + j'))))"
      using "1.prems" by (intro "1.IH" [OF True x p]) auto
    then obtain out' where
      run: "cols_loop_on ind tf d c i (j + 1) ?out1 = (out', None)"
      and dims: "rows out' = rows out" "cols out' = cols out"
        "length (elems out') = length (elems out)"
      and fr: "\<And>k. k < i * cols out + (j + 1) \<or> i * cols out + cols d \<le> k \<Longrightarrow>
            elems out' ! k = (elems out)[i * cols out + j := ?v] ! k"
      and wr: "\<And>j'. j + 1 \<le> j' \<Longrightarrow> j' < cols d \<Longrightarrow>
            elems out' ! (i * cols out + j')
              = depth_of_pixel_on ind c (tf (elems d ! (i * cols d + j')))"
      by auto
    have here: "elems out' ! (i * cols out + j) = ?v"
      using fr [of "i * cols out + j"] io by simp
    have frame: "elems out' ! k = elems out ! k"
      if "k < i * cols out + j \<or> i * cols out + cols d \<le> k" for k
    proof -
      have "k \<noteq> i * cols out + j" using that True by auto
      moreover have "elems out' ! k = (elems out)[i * cols out + j := ?v] ! k"
        using that by (intro fr) auto
      ultimately show ?thesis by simp
    qed
    have written: "elems out' ! (i * cols out + j')
              = depth_of_pixel_on ind c (tf (elems d ! (i * cols d + j')))"
      if "j \<le> j'" "j' < cols d" for j'
    proof (cases "j' = j")
      case True
      then show ?thesis using here by simp
    next
      case False
      then have "j + 1 \<le> j'" using that by simp
      then show ?thesis using that(2) by (rule wr)
    qed
    have "cols_loop_on ind tf d c i j out = (out', None)"
      using True x p run by (simp add: cols_loop_on.simps [of ind tf d c i j out])
    then show ?thesis
      using dims frame written by auto
  qed
qed

lemma rows_loop_on_ok:
  assumes "rows d = rows out" "cols d = cols out"
    and "rows d * cols d \<le> length (elems d)" "rows out * cols out \<le> length (elems out)"
  shows "\<exists>out'. rows_loop_on ind tf d c i out = (out', None)
    \<and> rows out' = rows out \<and> cols out' = cols out \<and> length (elems out') = length (elems out)
    \<and> (\<forall>k. k < i * cols out \<longrightarrow> elems out' ! k = elems out ! k)
    \<and> (\<forall>i' j'. i \<le> i' \<and> i' < rows d \<and> j' < cols d \<longrightarrow>
          elems out' ! (i' * cols out + j')
            = depth_of_pixel_on ind c (tf (elems d ! (i' * cols d + j'))))"
  using assms
proof (induction ind tf d c i out rule: rows_loop_on.induct)
  case (1 ind tf d c i out)
  show ?case
  proof (cases "i < rows d")
    case False
    then show ?thesis by (auto simp: rows_loop_on.simps [of ind tf d c i out])
  next
    case True
    have io: "i < rows out" using True "1.prems"(1) by simp
    from cols_loop_on_ok [OF True io "1.prems"(2,3,4), of ind tf c 0]
    obtain out1 where
      row: "cols_loop_on ind tf d c i 0 out = (out1, None)"
      and d1: "rows out1 = rows out" "cols out1 = cols out"
        "length (elems out1) = length (elems out)"
      and fr1: "\<And>k. k < i * cols out \<or> i * cols out + cols d \<le> k \<Longrightarrow>
            elems out1 ! k = elems out ! k"
      and wr1: "\<And>j'. j' < cols d \<Longrightarrow>
            elems out1 ! (i * cols out + j')
              = depth_of_pixel_on ind c (tf (elems d ! (i * cols d + j')))"
      by auto
    have "\<exists>out'. rows_loop_on ind tf d c (i + 1) out1 = (out', None)
      \<and> rows out' = rows out1 \<and> cols out' = cols out1
      \<and> length (elems out') = length (elems out1)
      \<and> (\<forall>k. k < (i + 1) * cols out1 \<longrightarrow> elems out' ! k = elems out1 ! k)
      \<and> (\<forall>i' j'. i + 1 \<le> i' \<and> i' < rows d \<and> j' < cols d \<longrightarrow>
            elems out' ! (i' * cols out1 + j')
              = depth_of_pixel_on ind c (tf (elems d ! (i' * cols d + j'))))"
      using "1.prems" d1 by (intro "1.IH" [OF True row [symmetric] refl]) auto
    then obtain out' where
      run: "rows_loop_on ind tf d c (i + 1) out1 = (out', None)"
      and dims: "rows out' = rows out" "cols out' = cols out"
        "length (elems out') = length (elems out)"
      and fr: "\<And>k. k < (i + 1) * cols out \<Longrightarrow> elems out' ! k = elems out1 ! k"
      and wr: "\<And>i' j'. i + 1 \<le> i' \<Longrightarrow> i' < rows d \<Longrightarrow> j' < cols d \<Longrightarrow>
            elems out' ! (i' * cols out + j')
              = depth_of_pixel_on ind c (tf (elems d ! (i' * cols d + j')))"
      using d1 by auto
    have frame: "elems out' ! k = elems out ! k" if "k < i * cols out" for k
    proof -
      have "k < (i + 1) * cols out" using that by simp
      then have "elems out' ! k = elems out1 ! k" by (rule fr)
      moreover have "elems out1 ! k = elems out ! k" using that by (intro fr1) simp
      ultimately show ?thesis by simp
    qed
    have written: "elems out' ! (i' * cols out + j')
              = depth_of_pixel_on ind c (tf (elems d ! (i' * cols d + j')))"
      if "i \<le> i'" "i' < rows d" "j' < cols d" for i' j'
    proof (cases "i' = i")
      case True
      have "i * cols out + j' < (i + 1) * cols out" using that(3) "1.prems"(2) by simp
      then have "elems out' ! (i * cols out + j') = elems out1 ! (i * cols out + j')"
        by (rule fr)
      then show ?thesis using wr1 [OF that(3)] True by simp
    next
      case False
      then have "i + 1 \<le> i'" using that by simp
      then show ?thesis using that(2,3) by (rule wr)
    qed
    have "rows_loop_on ind tf d c i out = (out', None)"
      using True row run by (simp add: rows_loop_on.simps [of ind tf d c i out])
    then show ?thesis
      using dims frame written by auto
  qed
qed

lemma DepthFromDisparityMap_on_ok:
  assumes "rows d = rows out0" "cols d = cols out0"
    and "rows d * cols d \<le> length (elems d)" "rows out0 * cols out0 \<le> length (elems out0)"
  shows "\<exists>out. DepthFromDisparityMap_on ind tf d c out0 = (out, None)
    \<and> rows out = rows d \<and> cols out = cols d \<and> length (elems out) = length (elems out0)
    \<and> (\<forall>i j. i < rows d \<and> j < cols d \<longrightarrow>
          mat_at d i j = Inr (elems d ! (i * cols d + j))
          \<and> mat_at out i j
              = Inr (depth_of_pixel_on ind c (tf (elems d ! (i * cols d + j)))))"
proof -
  from rows_loop_on_ok [OF assms, of ind tf c 0] obtain out where
    run: "rows_loop_on ind tf d c 0 out0 = (out, None)"
    and dims: "rows out = rows out0" "cols out = cols out0"
      "length (elems out) = length (elems out0)"
    and wr: "\<And>i j. i < rows d \<Longrightarrow> j < cols d \<Longrightarrow>
          elems out ! (i * cols out0 + j)
            = depth_of_pixel_on ind c (tf (elems d ! (i * cols d + j)))"
    by auto
  have px: "mat_at d i j = Inr (elems d ! (i * cols d + j))
          \<and> mat_at out i j
              = Inr (depth_of_pixel_on ind c (tf (elems d ! (i * cols d + j))))"
    if "i < rows d" "j < cols d" for i j
  proof -
    have "i * cols d + j < length (elems d)"
      using index_in_range [OF that] assms(3) by simp
    moreover have "i * cols d + j < length (elems out)"
      using index_in_range [OF that] assms(1,2,4) dims by simp
    ultimately show ?thesis
      using that wr [OF that] assms(1,2) dims by (simp add: mat_at_def)
  qed
  have "DepthFromDisparityMap_on ind tf d c out0 = (out, None)"
    using run assms(1,2) by (simp add: DepthFromDisparityMap_on_def)
  then show ?thesis using dims assms(1,2) px by auto
qed

text \<open>Where the loops complete by the rule of the language, the processor's conversion
  gives the same matrix.\<close>

lemma DepthFromDisparityMap_on_agrees:
  assumes "DepthFromDisparityMap tf d c out0 = (out, None)"
    and "length (elems d) = rows d * cols d"
    and "length (elems out0) = rows out0 * cols out0"
  shows "DepthFromDisparityMap_on ind tf d c out0 = (out, None)"
proof -
  note ok = DepthFromDisparityMap_ok [OF assms(1)]
  have sz: "rows d = rows out0" "cols d = cols out0" using ok by simp_all
  have wf: "rows d * cols d \<le> length (elems d)" "rows out0 * cols out0 \<le> length (elems out0)"
    using assms(2,3) by simp_all
  from DepthFromDisparityMap_on_ok [OF sz wf, of ind tf c] obtain out' where
    run: "DepthFromDisparityMap_on ind tf d c out0 = (out', None)"
    and dims: "rows out' = rows d" "cols out' = cols d"
      "length (elems out') = length (elems out0)"
    and px: "\<And>i j. i < rows d \<Longrightarrow> j < cols d \<Longrightarrow>
          mat_at d i j = Inr (elems d ! (i * cols d + j))
          \<and> mat_at out' i j = Inr (depth_of_pixel_on ind c (tf (elems d ! (i * cols d + j))))"
    by auto
  have len: "length (elems out') = rows d * cols d" using dims assms(3) sz by simp
  have "elems out' = elems out"
  proof (rule nth_equalityI)
    show "length (elems out') = length (elems out)" using dims ok by simp
  next
    fix k assume k: "k < length (elems out')"
    have cpos: "0 < cols d" using k len by (cases "cols d") auto
    have i: "k div cols d < rows d" using k len cpos by (simp add: less_mult_imp_div_less)
    have j: "k mod cols d < cols d" using cpos by simp
    have idx: "k div cols d * cols d + k mod cols d = k" by simp
    from ok i j idx obtain x v where
      x: "mat_at d (k div cols d) (k mod cols d) = Inr x"
      and v: "depth_of_pixel c (tf x) = Inr v" and e: "elems out ! k = v"
      by metis
    from px [OF i j] idx have
      x': "mat_at d (k div cols d) (k mod cols d) = Inr (elems d ! k)"
      and o': "mat_at out' (k div cols d) (k mod cols d)
          = Inr (depth_of_pixel_on ind c (tf (elems d ! k)))"
      by simp_all
    have "mat_at out' (k div cols d) (k mod cols d) = Inr (elems out' ! k)"
      using i j k dims idx by (simp add: mat_at_def)
    with o' have "elems out' ! k = depth_of_pixel_on ind c (tf (elems d ! k))" by simp
    moreover have "x = elems d ! k" using x x' by simp
    ultimately show "elems out' ! k = elems out ! k"
      using depth_of_pixel_on_agrees [OF v, of ind] e by simp
  qed
  then have "out' = out" using dims ok by (intro Mat.equality) simp_all
  with run show ?thesis by simp
qed

lemmas platform_eval =
  DepthFromDisparityMap_on_def rows_loop_on.simps cols_loop_on.simps depth_of_pixel_on_eq
  int32_of_double_on_def cvttsd2si_indefinite_def

lemma fmul_1000_finite:
  assumes "fmul binary64 kMetersToMillimeters D = Finite s m"
  shows "\<exists>t q. D = Finite t q"
  using assms by (cases D) (auto simp: kMetersToMillimeters_def)

lemma DepthFromDisparity_zero_not_finite:
  "DepthFromDisparity (Finite s 0) c \<noteq> Finite t q"
proof -
  obtain P where P: "fmul binary32 (baseline_meters c) (focal_length_px c) = P"
    by simp
  show ?thesis
    unfolding DepthFromDisparity_def P by (cases P) auto
qed

lemma depth_mm_of_negative_infinite_disparity:
  assumes "0 < b" "0 < f"
    and "fmul binary64 kMetersToMillimeters
          (DepthFromDisparity (Infinity True)
            (new_StereoCalibration (Finite False b) (Finite False f))) = Finite s m"
  shows "s \<and> m = 0"
proof -
  let ?D = "DepthFromDisparity (Infinity True)
            (new_StereoCalibration (Finite False b) (Finite False f))"
  have "?D = NaN \<or> ?D = Finite True 0"
    using fround_cases [of binary32 False "b * f"]
    by (auto simp: DepthFromDisparity_def new_StereoCalibration_def)
  moreover have "fmul binary64 kMetersToMillimeters (Finite True 0) = Finite True 0"
    by (simp add: kMetersToMillimeters_def fround_def round_mag_zero binary64_def)
  ultimately show ?thesis using assms(3) by (auto simp: kMetersToMillimeters_def)
qed

lemma depth_of_pixel_on_sentinel:
  assumes plat: "\<forall>x. sint (indefinite x) < 500 \<or> 15000 < sint (indefinite x)"
    and inv: "(\<exists>s. x = Finite s 0)
      \<or> ((\<exists>m. 0 < m \<and> x = Finite True m) \<or> x = Infinity True)
         \<and> (\<exists>b f. 0 < b \<and> 0 < f
               \<and> c = new_StereoCalibration (Finite False b) (Finite False f))
      \<or> DepthFromDisparity x c = NaN
      \<or> (\<exists>s. DepthFromDisparity x c = Infinity s)
      \<or> (\<exists>s m. fmul binary64 kMetersToMillimeters (DepthFromDisparity x c) = Finite s m
            \<and> ((if s then - \<lfloor>m\<rfloor> else \<lfloor>m\<rfloor>) < 500 \<or> 15000 < (if s then - \<lfloor>m\<rfloor> else \<lfloor>m\<rfloor>)))"
  shows "depth_of_pixel_on indefinite c x = 32767"
proof -
  let ?M = "fmul binary64 kMetersToMillimeters (DepthFromDisparity x c)"
  let ?v = "int32_of_double_on indefinite ?M"
  have "sint ?v < 500 \<or> 15000 < sint ?v"
  proof (cases "int32_of_double ?M")
    case (Inl e)
    then have "?v = indefinite ?M" by (simp add: int32_of_double_on_def)
    with plat show ?thesis by simp
  next
    case (Inr v)
    then have v: "?v = v" by (simp add: int32_of_double_on_def)
    from int32_of_double_Inr [OF Inr] obtain s m where
      M: "?M = Finite s m" and t: "sint v = (if s then - \<lfloor>m\<rfloor> else \<lfloor>m\<rfloor>)"
      by blast
    from fmul_1000_finite [OF M] obtain t' q where D: "DepthFromDisparity x c = Finite t' q"
      by blast
    from inv consider
        (zero) s' where "x = Finite s' 0"
      | (neg) m' b f where "0 < m'" "x = Finite True m'" "0 < b" "0 < f"
          "c = new_StereoCalibration (Finite False b) (Finite False f)"
      | (neginf) b f where "x = Infinity True" "0 < b" "0 < f"
          "c = new_StereoCalibration (Finite False b) (Finite False f)"
      | (nonfinite) "DepthFromDisparity x c = NaN \<or> (\<exists>s. DepthFromDisparity x c = Infinity s)"
      | (range) s' m' where "?M = Finite s' m'"
          "(if s' then - \<lfloor>m'\<rfloor> else \<lfloor>m'\<rfloor>) < 500 \<or> 15000 < (if s' then - \<lfloor>m'\<rfloor> else \<lfloor>m'\<rfloor>)"
      by blast
    then have "sint v < 500 \<or> 15000 < sint v"
    proof cases
      case zero
      with D DepthFromDisparity_zero_not_finite show ?thesis by blast
    next
      case neg
      with Inr depth_mm_of_negative_disparity [of b f m' v] show ?thesis by simp
    next
      case neginf
      with M depth_mm_of_negative_infinite_disparity [of b f s m] t show ?thesis by simp
    next
      case nonfinite
      with D show ?thesis by auto
    next
      case range
      from M range(1) have e: "s' = s" "m' = m" by simp_all
      show ?thesis using range(2) unfolding e t .
    qed
    with v show ?thesis by simp
  qed
  then show ?thesis by (auto simp: depth_of_pixel_on_eq Let_def)
qed

text \<open>
  C8, as the code has it. Let the processor's conversion of a value that \<^verbatim>\<open>int32_t\<close>
  cannot represent be outside 500 to 15000, as it is on x86-64 and on AArch64. Then
  \<^verbatim>\<open>DepthFromDisparityMap\<close>, on matrices of equal and proper size, always completes
  without an error, and the element stored at every pixel is the result of the loop body
  on that pixel's disparity alone. At every pixel whose disparity is zero; or negative,
  under a calibration of positive baseline and focal length; or whose depth is NaN or
  infinite; or whose depth in millimeters, truncated, is less than 500 or greater than
  15000, that element is 32767 (\<^verbatim>\<open>INT16_MAX\<close>).
\<close>

theorem DepthFromDisparityMap_on_invalid_pixels:
  assumes "\<forall>x. sint (indefinite x) < 500 \<or> 15000 < sint (indefinite x)"
    and "rows disparity = rows out_depth0" and "cols disparity = cols out_depth0"
    and "length (elems disparity) = rows disparity * cols disparity"
    and "length (elems out_depth0) = rows out_depth0 * cols out_depth0"
  shows "\<exists>out_depth.
      DepthFromDisparityMap_on indefinite to_float disparity calibration out_depth0
        = (out_depth, None)
    \<and> (\<forall>i j. i < rows disparity \<and> j < cols disparity \<longrightarrow>
        (\<exists>disp. mat_at disparity i j = Inr disp
          \<and> mat_at out_depth i j
              = Inr (depth_of_pixel_on indefinite calibration (to_float disp))
          \<and> ((\<exists>s. to_float disp = Finite s 0)
              \<or> ((\<exists>m. 0 < m \<and> to_float disp = Finite True m) \<or> to_float disp = Infinity True)
                 \<and> (\<exists>b f. 0 < b \<and> 0 < f
                       \<and> calibration = new_StereoCalibration (Finite False b) (Finite False f))
              \<or> DepthFromDisparity (to_float disp) calibration = NaN
              \<or> (\<exists>s. DepthFromDisparity (to_float disp) calibration = Infinity s)
              \<or> (\<exists>s m. fmul binary64 kMetersToMillimeters
                          (DepthFromDisparity (to_float disp) calibration) = Finite s m
                    \<and> ((if s then - \<lfloor>m\<rfloor> else \<lfloor>m\<rfloor>) < 500
                        \<or> 15000 < (if s then - \<lfloor>m\<rfloor> else \<lfloor>m\<rfloor>)))
             \<longrightarrow> mat_at out_depth i j = Inr 32767)))"
proof -
  have wf: "rows disparity * cols disparity \<le> length (elems disparity)"
    "rows out_depth0 * cols out_depth0 \<le> length (elems out_depth0)"
    using assms(4,5) by simp_all
  from DepthFromDisparityMap_on_ok [OF assms(2,3) wf, of indefinite to_float calibration]
  obtain out where
    run: "DepthFromDisparityMap_on indefinite to_float disparity calibration out_depth0
        = (out, None)"
    and px: "\<And>i j. i < rows disparity \<Longrightarrow> j < cols disparity \<Longrightarrow>
          mat_at disparity i j = Inr (elems disparity ! (i * cols disparity + j))
          \<and> mat_at out i j = Inr (depth_of_pixel_on indefinite calibration
                (to_float (elems disparity ! (i * cols disparity + j))))"
    by auto
  show ?thesis
  proof (intro exI [of _ out] conjI allI impI)
    show "DepthFromDisparityMap_on indefinite to_float disparity calibration out_depth0
        = (out, None)" by (rule run)
  next
    fix i j assume ij: "i < rows disparity \<and> j < cols disparity"
    let ?x = "elems disparity ! (i * cols disparity + j)"
    from ij px [of i j] have
      a: "mat_at disparity i j = Inr ?x"
      and b: "mat_at out i j = Inr (depth_of_pixel_on indefinite calibration (to_float ?x))"
      by simp_all
    show "\<exists>disp. mat_at disparity i j = Inr disp
          \<and> mat_at out i j
              = Inr (depth_of_pixel_on indefinite calibration (to_float disp))
          \<and> ((\<exists>s. to_float disp = Finite s 0)
              \<or> ((\<exists>m. 0 < m \<and> to_float disp = Finite True m) \<or> to_float disp = Infinity True)
                 \<and> (\<exists>b f. 0 < b \<and> 0 < f
                       \<and> calibration = new_StereoCalibration (Finite False b) (Finite False f))
              \<or> DepthFromDisparity (to_float disp) calibration = NaN
              \<or> (\<exists>s. DepthFromDisparity (to_float disp) calibration = Infinity s)
              \<or> (\<exists>s m. fmul binary64 kMetersToMillimeters
                          (DepthFromDisparity (to_float disp) calibration) = Finite s m
                    \<and> ((if s then - \<lfloor>m\<rfloor> else \<lfloor>m\<rfloor>) < 500
                        \<or> 15000 < (if s then - \<lfloor>m\<rfloor> else \<lfloor>m\<rfloor>)))
             \<longrightarrow> mat_at out i j = Inr 32767)"
    proof (intro exI [of _ ?x] conjI impI)
      show "mat_at disparity i j = Inr ?x" by (rule a)
      show "mat_at out i j = Inr (depth_of_pixel_on indefinite calibration (to_float ?x))"
        by (rule b)
    next
      assume inv: "(\<exists>s. to_float ?x = Finite s 0)
              \<or> ((\<exists>m. 0 < m \<and> to_float ?x = Finite True m) \<or> to_float ?x = Infinity True)
                 \<and> (\<exists>b f. 0 < b \<and> 0 < f
                       \<and> calibration = new_StereoCalibration (Finite False b) (Finite False f))
              \<or> DepthFromDisparity (to_float ?x) calibration = NaN
              \<or> (\<exists>s. DepthFromDisparity (to_float ?x) calibration = Infinity s)
              \<or> (\<exists>s m. fmul binary64 kMetersToMillimeters
                          (DepthFromDisparity (to_float ?x) calibration) = Finite s m
                    \<and> ((if s then - \<lfloor>m\<rfloor> else \<lfloor>m\<rfloor>) < 500
                        \<or> 15000 < (if s then - \<lfloor>m\<rfloor> else \<lfloor>m\<rfloor>)))"
      from depth_of_pixel_on_sentinel [OF assms(1) inv] b
      show "mat_at out i j = Inr 32767" by simp
    qed
  qed
qed

text \<open>
  C8 as stated fails: with baseline 0.5 and focal length 960.03125 a disparity of 32 is a
  depth of 15.00048828125 m, outside the range of 0.5 m to 15 m; it truncates to
  15000 mm, which is stored. And a negative disparity gives a negative depth only under a
  calibration of positive product: with baseline -0.5 and focal length 700 a disparity
  of -50 is a depth of 7 m, stored as 7000.
\<close>

theorem depth_beyond_15m_retained:
  "DepthFromDisparity (Finite False 32)
      (new_StereoCalibration (Finite False (1 / 2)) (Finite False (30721 / 32)))
     = Finite False (30721 / 2048)
   \<and> flt (Finite False 15) (Finite False (30721 / 2048))
   \<and> depth_of_pixel (new_StereoCalibration (Finite False (1 / 2)) (Finite False (30721 / 32)))
        (Finite False 32) = Inr 15000
   \<and> depth_of_pixel_on cvttsd2si_indefinite
        (new_StereoCalibration (Finite False (1 / 2)) (Finite False (30721 / 32)))
        (Finite False 32) = 15000
   \<and> (15000 :: int16) \<noteq> 32767
   \<and> depth_of_pixel (new_StereoCalibration (Finite True (1 / 2)) (Finite False 700))
        (Finite True 50) = Inr 7000
   \<and> depth_of_pixel_on cvttsd2si_indefinite
        (new_StereoCalibration (Finite True (1 / 2)) (Finite False 700))
        (Finite True 50) = 7000
   \<and> (7000 :: int16) \<noteq> 32767"
  by (simp add: float_eval platform_eval
      round_mag_eval [where k = 8] round_mag_eval [where k = 3] round_mag_eval [where k = 13]
      round_mag_eval [where k = 2] round_mag_eval [where k = 12])

theorem DepthFromDisparityMap_on_invalid_pixels_witness:
  "(\<forall>x. sint (cvttsd2si_indefinite x) < 500 \<or> 15000 < sint (cvttsd2si_indefinite x))
   \<and> rows \<lparr>rows = 2, cols = 2,
        elems = [Finite False 0, Finite True 50, Finite False 5, Finite False 50]\<rparr>
       = rows (new_Mat 2 2 (3 :: int16))
   \<and> cols \<lparr>rows = 2, cols = 2,
        elems = [Finite False 0, Finite True 50, Finite False 5, Finite False 50]\<rparr>
       = cols (new_Mat 2 2 (3 :: int16))
   \<and> length [Finite False 0, Finite True 50, Finite False 5, Finite False 50] = 2 * 2
   \<and> length (elems (new_Mat 2 2 (3 :: int16))) = 2 * 2
   \<and> DepthFromDisparityMap_on cvttsd2si_indefinite float_of_float
       \<lparr>rows = 2, cols = 2,
        elems = [Finite False 0, Finite True 50, Finite False 5, Finite False 50]\<rparr>
       (new_StereoCalibration (Finite False (1 / 2)) (Finite False 700))
       (new_Mat 2 2 3)
     = (\<lparr>rows = 2, cols = 2, elems = [32767, 32767, 32767, 7000]\<rparr>, None)
   \<and> DepthFromDisparity (Finite False 0)
        (new_StereoCalibration (Finite False (1 / 2)) (Finite False 700)) = Infinity False
   \<and> mat_at \<lparr>rows = 2, cols = 2, elems = [32767, 32767, 32767, 7000 :: int16]\<rparr> 0 0
       = Inr 32767
   \<and> mat_at \<lparr>rows = 2, cols = 2, elems = [32767, 32767, 32767, 7000 :: int16]\<rparr> 0 1
       = Inr 32767
   \<and> mat_at \<lparr>rows = 2, cols = 2, elems = [32767, 32767, 32767, 7000 :: int16]\<rparr> 1 0
       = Inr 32767
   \<and> mat_at \<lparr>rows = 2, cols = 2, elems = [32767, 32767, 32767, 7000 :: int16]\<rparr> 1 1
       = Inr 7000"
  (is "?plat \<and> ?r \<and> ?c \<and> ?ld \<and> ?lo \<and> ?run \<and> ?rest")
proof -
  have plat: ?plat by (simp add: cvttsd2si_indefinite_def)
  have r: ?r and c: ?c by (simp_all add: new_Mat_def)
  have ld: "length (elems \<lparr>rows = 2, cols = 2,
        elems = [Finite False 0, Finite True 50, Finite False 5, Finite False 50]\<rparr>)
      = rows \<lparr>rows = 2, cols = 2,
        elems = [Finite False 0, Finite True 50, Finite False 5, Finite False 50]\<rparr>
        * cols \<lparr>rows = 2, cols = 2,
        elems = [Finite False 0, Finite True 50, Finite False 5, Finite False 50]\<rparr>"
    by simp
  have lo: "length (elems (new_Mat 2 2 (3 :: int16)))
      = rows (new_Mat 2 2 (3 :: int16)) * cols (new_Mat 2 2 (3 :: int16))"
    by (simp add: new_Mat_def)
  have run: ?run
    by (simp add: loop_eval float_eval platform_eval
        round_mag_eval [where k = 8] round_mag_eval [where k = 2] round_mag_eval [where k = 12]
        round_mag_eval [where k = 6] round_mag_eval [where k = 16])
  have rest: ?rest
    by (simp add: mat_at_def float_eval round_mag_eval [where k = 8])
  from DepthFromDisparityMap_on_invalid_pixels [OF plat r c ld lo, of float_of_float
      "new_StereoCalibration (Finite False (1 / 2)) (Finite False 700)"]
    plat r c run rest
  show ?thesis by (simp add: new_Mat_def)
qed

text \<open>
  A disparity of zero gives an infinite depth. The language leaves its conversion to
  \<^verbatim>\<open>int32_t\<close> undefined; the processor delivers \<^verbatim>\<open>INT32_MIN\<close>, and the pixel is 32767.
\<close>

lemma zero_disparity:
  "DepthFromDisparity (Finite False 0)
      (new_StereoCalibration (Finite False (1 / 2)) (Finite False 700)) = Infinity False
   \<and> depth_of_pixel (new_StereoCalibration (Finite False (1 / 2)) (Finite False 700))
        (Finite False 0) = Inl UndefinedBehaviour
   \<and> depth_of_pixel_on cvttsd2si_indefinite
        (new_StereoCalibration (Finite False (1 / 2)) (Finite False 700))
        (Finite False 0) = 32767"
  by (simp add: float_eval platform_eval round_mag_eval [where k = 8])

lemma float_of_uint16_not_negative: "\<not> flt (float_of_uint16 w) (Finite False 0)"
proof -
  have "(0::rat) \<le> of_nat (unat w)" by (rule of_nat_0_le_iff)
  then show ?thesis
    unfolding float_of_uint16_def by (simp only: flt.simps fval.simps if_False not_less)
qed

lemma unat_minus_one_16: "unat (- 1 :: uint16) = 65535"
  by (simp add: unsigned_minus_1_eq_mask mask_eq_exp_minus_1)

text \<open>
  C5. For a matrix of type \<^verbatim>\<open>CV_16SC1\<close> the code instantiates
  \<^verbatim>\<open>DepthFromDisparityMap<uint16_t>\<close>, so the converter receives an unsigned value. The
  stored disparity -1 reaches it as 65535 when the bits are kept, which with baseline 1
  and focal length 65535 is stored as the depth 1000 mm; when the conversion to
  \<^verbatim>\<open>uint16_t\<close> saturates it reaches it as 0, and the infinite depth has no defined
  conversion. Whatever the conversion, the value passed is never below zero.
\<close>

theorem negative_disparity_read_unsigned:
  "\<not> flt (float_of_uint16 (Mat_uint16 lib w)) (Finite False 0)
   \<and> sint (- 1 :: int16) = - 1
   \<and> float_of_uint16 (- 1) = Finite False 65535
   \<and> DepthFromStereo
       \<lparr>Type2Str = (\<lambda>t. ''?''), Format = (\<lambda>fmt name. fmt @ name),
        Mat_uint16 = (\<lambda>w. w)\<rparr>
       \<lparr>input_is_depth = False,
        DisparityMapFromStereo = (\<lambda>(l::unit) (r::unit) out. Mat16S
          \<lparr>rows = 1, cols = 1, elems = [- 1]\<rparr>)\<rparr>
       () () (new_StereoCalibration (Finite False 1) (Finite False 65535)) empty_Mat
     = (Mat16S \<lparr>rows = 1, cols = 1, elems = [1000]\<rparr>, None)
   \<and> DepthFromStereo
       \<lparr>Type2Str = (\<lambda>t. ''?''), Format = (\<lambda>fmt name. fmt @ name), Mat_uint16 = (\<lambda>w. if sint w < 0 then 0 else w)\<rparr>
       \<lparr>input_is_depth = False,
        DisparityMapFromStereo = (\<lambda>(l::unit) (r::unit) out. Mat16S
          \<lparr>rows = 1, cols = 1, elems = [- 1]\<rparr>)\<rparr>
       () () (new_StereoCalibration (Finite False 1) (Finite False 65535)) empty_Mat
     = (Mat16S \<lparr>rows = 1, cols = 1, elems = [3]\<rparr>, Some UndefinedBehaviour)"
  by (simp add: float_of_uint16_not_negative)
    (simp add: DepthFromStereo_def CV_16SC1_def loop_eval float_eval unat_minus_one_16
      round_mag_eval [where k = 15] round_mag_eval [where k = 0] round_mag_eval [where k = 9])

end
